theory Spec2Isabelle
  imports Complex_Main
begin

section \<open>Off-chain balance ledger and marketplace settlement of CARBONIQ\<close>

text \<open>
  The development embeds the ledger routes and helpers of \<^verbatim>\<open>server/routes/balance.ts\<close>,
  the marketplace routes \<^verbatim>\<open>createListing\<close>, \<^verbatim>\<open>listListings\<close> and \<^verbatim>\<open>buyListing\<close>
  that the server mounts from \<^verbatim>\<open>./routes/marketplace\<close> (\<^verbatim>\<open>api/marketplace/buy.ts\<close>
  repeats their bodies after its CORS preamble) and the edge read handler
  \<^verbatim>\<open>api/balance/email/[userEmail].ts\<close>.

  Conventions of the embedding:
  \<^item> a string is the list of its UTF-16 code units, each a \<open>char\<close> (code units above 255
    are outside the model); a required string field is a \<open>string\<close>, the empty string
    being the falsy value that \<^verbatim>\<open>!field\<close> rejects; an optional field is an \<open>option\<close>,
    \<open>None\<close> standing for \<^verbatim>\<open>undefined\<close>;
  \<^item> a JavaScript \<^verbatim>\<open>number\<close> is a finite double, written as the rational it denotes:
    \<^verbatim>\<open>!x\<close> is \<open>x = 0\<close>, \<^verbatim>\<open><\<close> and unary \<^verbatim>\<open>-\<close> are those of the rationals, which
    is what IEEE 754 computes on finite doubles; NaN and the infinities are outside the
    model;
  \<^item> what the language runtime computes and the rationals do not is a parameter: the
    \<open>Runtime\<close> gives \<^verbatim>\<open>String.prototype.toLowerCase\<close> and the rounding \<^verbatim>\<open>+\<close> of
    doubles, and no definition assumes anything about either;
  \<^item> \<open>rupeesBalance\<close> of a stored document is a \<open>rat option\<close>: \<open>None\<close> is a document
    without a numeric \<^verbatim>\<open>rupeesBalance\<close> (written before the marketplace existed);
  \<^item> the three process-wide maps, the listing and order arrays and the pinned documents
    are the fields of one \<open>Store\<close>, passed in and returned by every function;
  \<^item> everything the code asks of its surroundings (Pinata credentials, the pin search,
    the gateways, the upload, the clock, the random ids) is answered by an \<open>Env\<close>;
  \<^item> a function is the run of one call with no other call in between. Every handler is
    asynchronous, so other calls run while one is suspended at an \<^verbatim>\<open>await\<close>: the
    statements that touch the listings, and those that read and write snapshots, are
    also given as events that may happen in any order.
\<close>

subsection \<open>The language runtime\<close>

record Runtime =
  toLowerCase :: "string \<Rightarrow> string"
  add :: "rat \<Rightarrow> rat \<Rightarrow> rat"

text \<open>\<^verbatim>\<open>x || 0\<close> on a number.\<close>

definition orZero :: "rat \<Rightarrow> rat" where
  "orZero x = (if x \<noteq> 0 then x else 0)"

subsection \<open>Data model\<close>

record Transaction =
  tx_id :: string
  tx_amount :: rat
  tx_adminSignature :: string
  tx_timestamp :: string
  tx_ticketId :: string
  tx_walletAddress :: "string option"
  tx_userEmail :: string
  tx_adminEmail :: "string option"

record UserBalance =
  userEmail :: string
  userId :: "string option"
  walletAddress :: "string option"
  totalBalance :: rat
  rupeesBalance :: "rat option"
  transactions :: "Transaction list"
  lastUpdated :: string

datatype ListingStatus = Active | Sold | Cancelled

record MarketplaceListing =
  l_id :: string
  sellerEmail :: string
  sellerUserId :: "string option"
  sellerWallet :: string
  amountTokens :: rat
  priceRupees :: rat
  status :: ListingStatus
  createdAt :: string
  updatedAt :: string

datatype OrderStatus = Completed | Failed

record MarketplaceOrder =
  o_id :: string
  o_listingId :: string
  o_buyerEmail :: string
  o_buyerUserId :: "string option"
  o_buyerWallet :: string
  o_amountTokens :: rat
  o_totalRupees :: rat
  o_status :: OrderStatus
  o_adminSignature :: "string option"
  o_createdAt :: string

record CreateListingRequest =
  c_sellerEmail :: string
  c_sellerUserId :: "string option"
  c_sellerWallet :: string
  c_amountTokens :: rat
  c_priceRupees :: rat
  c_signature :: string

record BuyListingRequest =
  listingId :: string
  buyerEmail :: string
  buyerUserId :: "string option"
  buyerWallet :: string
  signature :: string

record Balances =
  b_totalBalance :: rat
  b_rupeesBalance :: rat

record BuyListingResponse =
  r_listing :: MarketplaceListing
  r_order :: MarketplaceOrder
  buyerBalance :: Balances
  sellerBalance :: Balances

subsection \<open>The process state and its surroundings\<close>

text \<open>
  \<open>emailToIpfsMap\<close> answers \<^verbatim>\<open>get\<close>: \<open>None\<close> where the map has no entry or holds
  \<^verbatim>\<open>undefined\<close>. \<open>ipfs\<close> is the content store behind Pinata: the balance documents
  pinned so far, by content id.
\<close>

record Store =
  emailToIpfsMap :: "string \<rightharpoonup> string"
  userIdToEmail :: "string \<rightharpoonup> string"
  inMemoryBalances :: "string \<rightharpoonup> UserBalance"
  listings :: "MarketplaceListing list"
  orders :: "MarketplaceOrder list"
  listingsCid :: "string option"
  ordersCid :: "string option"
  ipfs :: "string \<rightharpoonup> UserBalance"

text \<open>
  The outcome of one upload is \<open>UploadThrows\<close> (\<^verbatim>\<open>fetch\<close> rejects), \<open>UploadNotOk\<close> (a
  response that is not \<^verbatim>\<open>ok\<close>) or \<open>UploadOk cid hash\<close>: the document is pinned under
  \<open>cid\<close> and the response carries \<open>hash\<close> as its \<^verbatim>\<open>IpfsHash\<close>, \<open>None\<close> when it has none.
\<close>

datatype Upload = UploadThrows | UploadNotOk | UploadOk string "string option"

record Env =
  pinataCreds :: bool
  pinSearch :: "string \<Rightarrow> string"
  fetchOk :: "string \<Rightarrow> bool"
  pinUpload :: Upload
  nowIso :: string
  nowMs :: string
  rand :: string
  uuid :: string

definition initialStore :: Store where
  "initialStore =
     \<lparr>emailToIpfsMap = Map.empty, userIdToEmail = Map.empty, inMemoryBalances = Map.empty,
      listings = [], orders = [], listingsCid = None, ordersCid = None, ipfs = Map.empty\<rparr>"

definition dedicatedGateway :: string where
  "dedicatedGateway = ''https://amethyst-additional-flamingo-32.mypinata.cloud/ipfs/''"

text \<open>A gateway request for a content id: the pinned document when the request succeeds.\<close>

definition fetchJson :: "Env \<Rightarrow> Store \<Rightarrow> string \<Rightarrow> string \<Rightarrow> UserBalance option" where
  "fetchJson env st gateway ipfsHash =
     (if fetchOk env (gateway @ ipfsHash) then ipfs st ipfsHash else None)"

subsection \<open>Reading a balance (balance.ts)\<close>

text \<open>
  The block every read path repeats: the hash from \<open>emailToIpfsMap\<close> and, when there is
  none and credentials are configured, the first hit of the Pinata pin search, which is
  remembered in the map. \<open>pinSearch env key\<close> is empty when the search fails, throws or
  finds nothing. The result is empty when no hash is known.
\<close>

definition resolveHash :: "Env \<Rightarrow> string \<Rightarrow> Store \<Rightarrow> string \<times> Store" where
  "resolveHash env emailKey st =
     (let ipfsHash = (case emailToIpfsMap st emailKey of None \<Rightarrow> [] | Some h \<Rightarrow> h)
      in if ipfsHash \<noteq> [] then (ipfsHash, st)
         else if pinataCreds env then
           (let hash = pinSearch env emailKey
            in if hash \<noteq> []
               then (hash, st\<lparr>emailToIpfsMap := (emailToIpfsMap st)(emailKey \<mapsto> hash)\<rparr>)
               else ([], st))
         else ([], st))"

definition defaultBalance :: "string \<Rightarrow> string \<Rightarrow> UserBalance" where
  "defaultBalance emailKey now =
     \<lparr>userEmail = emailKey, userId = None, walletAddress = None, totalBalance = 0,
      rupeesBalance = Some 100, transactions = [], lastUpdated = now\<rparr>"

text \<open>\<^verbatim>\<open>if (typeof bal.rupeesBalance !== 'number') bal.rupeesBalance = 100\<close>\<close>

definition coerceRupees :: "UserBalance \<Rightarrow> UserBalance" where
  "coerceRupees bal =
     (case rupeesBalance bal of None \<Rightarrow> bal\<lparr>rupeesBalance := Some 100\<rparr> | Some r \<Rightarrow> bal)"

text \<open>\<^verbatim>\<open>getUserBalanceByEmailInternal\<close>: \<open>None\<close> is the \<^verbatim>\<open>null\<close> of a failed fetch.\<close>

definition getUserBalanceByEmailInternal ::
    "Runtime \<Rightarrow> Env \<Rightarrow> string \<Rightarrow> Store \<Rightarrow> UserBalance option \<times> Store" where
  "getUserBalanceByEmailInternal rt env email st =
     (let emailKey = toLowerCase rt email
      in case inMemoryBalances st emailKey of
           Some mem \<Rightarrow> (Some mem, st)
         | None \<Rightarrow>
             (let (ipfsHash, st1) = resolveHash env emailKey st
              in if ipfsHash = [] then (Some (defaultBalance emailKey (nowIso env)), st1)
                 else (case fetchJson env st1 dedicatedGateway ipfsHash of
                         None \<Rightarrow> (None, st1)
                       | Some bal \<Rightarrow> (Some (coerceRupees bal), st1))))"

text \<open>
  The Express route \<^verbatim>\<open>getUserBalanceByEmail\<close>. Its answers are written as
  \<open>UserBalance\<close> values; the fallback object of the route has no \<^verbatim>\<open>rupeesBalance\<close>
  property at all, which is \<open>rupeesBalance = None\<close>.
\<close>

datatype ReadError = EmailRequired

definition routeFallback :: "string \<Rightarrow> string \<Rightarrow> UserBalance" where
  "routeFallback emailKey now =
     \<lparr>userEmail = emailKey, userId = None, walletAddress = None, totalBalance = 0,
      rupeesBalance = None, transactions = [], lastUpdated = now\<rparr>"

definition getUserBalanceByEmail ::
    "Runtime \<Rightarrow> Env \<Rightarrow> string \<Rightarrow> Store \<Rightarrow> (ReadError + UserBalance) \<times> Store" where
  "getUserBalanceByEmail rt env email st =
     (if email = [] then (Inl EmailRequired, st)
      else
        (let emailKey = toLowerCase rt email
         in case inMemoryBalances st emailKey of
              Some mem \<Rightarrow> (Inr mem, st)
            | None \<Rightarrow>
                (let (ipfsHash, st1) = resolveHash env emailKey st
                 in if ipfsHash = [] then (Inr (routeFallback emailKey (nowIso env)), st1)
                    else (case fetchJson env st1 dedicatedGateway ipfsHash of
                            None \<Rightarrow> (Inr (routeFallback emailKey (nowIso env)), st1)
                          | Some balance \<Rightarrow> (Inr balance, st1)))))"

subsection \<open>Reading a balance on the edge (api/balance/email/[userEmail].ts)\<close>

definition ipfsGateways :: "string list" where
  "ipfsGateways =
     [''https://amethyst-additional-flamingo-32.mypinata.cloud/ipfs/'',
      ''https://gateway.pinata.cloud/ipfs/'',
      ''https://ipfs.io/ipfs/'',
      ''https://cloudflare-ipfs.com/ipfs/'',
      ''https://gateway.ipfs.io/ipfs/'']"

text \<open>The loop over the gateways: the first one that answers ends it.\<close>

fun tryGateways :: "Env \<Rightarrow> Store \<Rightarrow> string \<Rightarrow> string list \<Rightarrow> UserBalance option" where
  "tryGateways env st ipfsHash [] = None"
| "tryGateways env st ipfsHash (gateway # rest) =
     (case fetchJson env st gateway ipfsHash of
        Some balanceData \<Rightarrow> Some (coerceRupees balanceData)
      | None \<Rightarrow> tryGateways env st ipfsHash rest)"

text \<open>
  The \<^verbatim>\<open>handler\<close> of the edge route. It answers a balance and, on the default, a
  \<^verbatim>\<open>note\<close>; a document it fetched is kept in \<open>inMemoryBalances\<close>.
\<close>

definition emailHandler ::
    "Runtime \<Rightarrow> Env \<Rightarrow> string \<Rightarrow> Store \<Rightarrow> (ReadError + UserBalance \<times> string option) \<times> Store" where
  "emailHandler rt env email st =
     (if email = [] then (Inl EmailRequired, st)
      else
        (let emailKey = toLowerCase rt email
         in case inMemoryBalances st emailKey of
              Some mem \<Rightarrow> (Inr (mem, None), st)
            | None \<Rightarrow>
                (let (ipfsHash, st1) = resolveHash env emailKey st;
                     balanceData =
                       (if ipfsHash \<noteq> [] then tryGateways env st1 ipfsHash ipfsGateways
                        else None)
                 in case balanceData of
                      Some b \<Rightarrow>
                        (Inr (b, None),
                         st1\<lparr>inMemoryBalances := (inMemoryBalances st1)(emailKey \<mapsto> b)\<rparr>)
                    | None \<Rightarrow>
                        (Inr (defaultBalance emailKey (nowIso env),
                              Some (if ipfsHash \<noteq> [] then ''IPFS data temporarily unavailable''
                                    else ''No balance data found'')),
                         st1))))"

subsection \<open>Applying a delta (balance.ts)\<close>

text \<open>Pinning a document makes it readable under its content id.\<close>

definition pin :: "string \<Rightarrow> UserBalance \<Rightarrow> Store \<Rightarrow> Store" where
  "pin cid doc st = st\<lparr>ipfs := (ipfs st)(cid \<mapsto> doc)\<rparr>"

definition setMemory :: "string \<Rightarrow> UserBalance \<Rightarrow> Store \<Rightarrow> Store" where
  "setMemory emailKey doc st = st\<lparr>inMemoryBalances := (inMemoryBalances st)(emailKey \<mapsto> doc)\<rparr>"

text \<open>\<^verbatim>\<open>emailToIpfsMap.set(emailKey, cid)\<close>, where \<^verbatim>\<open>cid\<close> may be \<^verbatim>\<open>undefined\<close>.\<close>

definition setHash :: "string \<Rightarrow> string option \<Rightarrow> Store \<Rightarrow> Store" where
  "setHash emailKey cid st = st\<lparr>emailToIpfsMap := (emailToIpfsMap st)(emailKey := cid)\<rparr>"

record StoreArgs =
  a_userEmail :: string
  a_userId :: "string option"
  a_walletAddress :: "string option"
  a_amount :: rat
  a_adminSignature :: string
  a_ticketId :: string
  a_deltaRupees :: "rat option"

text \<open>
  The snapshot \<^verbatim>\<open>storeUserBalanceInternal\<close> starts from when its read returns
  \<^verbatim>\<open>null\<close>, the transaction record it appends and its \<^verbatim>\<open>newBal\<close> object.
\<close>

definition freshBalance :: "Env \<Rightarrow> StoreArgs \<Rightarrow> string \<Rightarrow> UserBalance" where
  "freshBalance env args emailKey =
     \<lparr>userEmail = emailKey, userId = a_userId args, walletAddress = a_walletAddress args,
      totalBalance = 0, rupeesBalance = Some 100, transactions = [], lastUpdated = nowIso env\<rparr>"

definition internalTransaction :: "Env \<Rightarrow> StoreArgs \<Rightarrow> string \<Rightarrow> Transaction" where
  "internalTransaction env args emailKey =
     \<lparr>tx_id = ''tx_'' @ nowMs env @ ''_'' @ rand env,
      tx_amount = a_amount args,
      tx_adminSignature = a_adminSignature args,
      tx_timestamp = nowIso env,
      tx_ticketId = a_ticketId args,
      tx_walletAddress = a_walletAddress args,
      tx_userEmail = emailKey,
      tx_adminEmail = None\<rparr>"

definition newBal :: "Runtime \<Rightarrow> Env \<Rightarrow> StoreArgs \<Rightarrow> string \<Rightarrow> UserBalance \<Rightarrow> UserBalance" where
  "newBal rt env args emailKey existing =
     existing
       \<lparr>userId := (case userId existing of None \<Rightarrow> a_userId args | Some u \<Rightarrow> Some u),
        walletAddress :=
          (case walletAddress existing of None \<Rightarrow> a_walletAddress args | Some w \<Rightarrow> Some w),
        totalBalance := add rt (orZero (totalBalance existing)) (a_amount args),
        rupeesBalance :=
          Some (add rt (case rupeesBalance existing of Some r \<Rightarrow> r | None \<Rightarrow> 100)
                       (case a_deltaRupees args of None \<Rightarrow> 0 | Some d \<Rightarrow> d)),
        transactions := transactions existing @ [internalTransaction env args emailKey],
        lastUpdated := nowIso env\<rparr>"

text \<open>
  The end of \<^verbatim>\<open>storeUserBalanceInternal\<close>: the upload and what the process remembers
  of it. \<open>Inl ()\<close> is the exception of a rejected upload request, which is not caught.
  After an upload that succeeds, a snapshot in \<open>inMemoryBalances\<close> stays as it is.
\<close>

definition persist :: "Env \<Rightarrow> string \<Rightarrow> UserBalance \<Rightarrow> Store \<Rightarrow> unit + Store" where
  "persist env emailKey nb st =
     (if pinataCreds env then
        (case pinUpload env of
           UploadThrows \<Rightarrow> Inl ()
         | UploadOk cid hash \<Rightarrow>
             Inr (case hash of
                    None \<Rightarrow> pin cid nb st
                  | Some h \<Rightarrow> if h \<noteq> [] then setHash emailKey (Some h) (pin cid nb st)
                              else pin cid nb st)
         | UploadNotOk \<Rightarrow> Inr (setMemory emailKey nb st))
      else Inr (setMemory emailKey nb st))"

definition storeUserBalanceInternal ::
    "Runtime \<Rightarrow> Env \<Rightarrow> StoreArgs \<Rightarrow> Store \<Rightarrow> (unit + UserBalance) \<times> Store" where
  "storeUserBalanceInternal rt env args st =
     (let emailKey = toLowerCase rt (a_userEmail args);
          (found, st1) = getUserBalanceByEmailInternal rt env emailKey st;
          existing = (case found of Some e \<Rightarrow> e | None \<Rightarrow> freshBalance env args emailKey);
          nb = newBal rt env args emailKey existing
      in case persist env emailKey nb st1 of
           Inl e \<Rightarrow> (Inl e, st1)
         | Inr st2 \<Rightarrow> (Inr nb, st2))"

subsection \<open>The store route (balance.ts)\<close>

record StoreRequest =
  s_userEmail :: string
  s_userId :: "string option"
  s_walletAddress :: "string option"
  s_amount :: rat
  s_adminSignature :: string
  s_ticketId :: string
  s_adminEmail :: "string option"

record StoreResponse =
  s_cid :: "string option"
  s_balance :: rat
  s_ipfsUrl :: string
  s_note :: "string option"

datatype StoreError = StoreMissingFields | StoreFailed

definition newTransaction :: "Env \<Rightarrow> StoreRequest \<Rightarrow> string \<Rightarrow> Transaction" where
  "newTransaction env req emailKey =
     \<lparr>tx_id = ''tx_'' @ nowMs env @ ''_'' @ rand env,
      tx_amount = s_amount req,
      tx_adminSignature = s_adminSignature req,
      tx_timestamp = nowIso env,
      tx_ticketId = s_ticketId req,
      tx_walletAddress = s_walletAddress req,
      tx_userEmail = emailKey,
      tx_adminEmail = s_adminEmail req\<rparr>"

definition updatedBalance ::
    "Runtime \<Rightarrow> Env \<Rightarrow> StoreRequest \<Rightarrow> string \<Rightarrow> UserBalance option \<Rightarrow> UserBalance" where
  "updatedBalance rt env req emailKey existingBalance =
     (case existingBalance of
        Some e \<Rightarrow>
          e\<lparr>totalBalance := add rt (totalBalance e) (s_amount req),
            rupeesBalance := Some (case rupeesBalance e of None \<Rightarrow> 100 | Some r \<Rightarrow> r),
            transactions := transactions e @ [newTransaction env req emailKey],
            lastUpdated := nowIso env\<rparr>
      | None \<Rightarrow>
          \<lparr>userEmail = emailKey, userId = s_userId req, walletAddress = s_walletAddress req,
           totalBalance = s_amount req, rupeesBalance = Some 100,
           transactions = [newTransaction env req emailKey], lastUpdated = nowIso env\<rparr>)"

text \<open>The existing balance the route starts from: the pinned document, else the memory.\<close>

definition existingBalanceOf :: "Env \<Rightarrow> string \<Rightarrow> Store \<Rightarrow> UserBalance option" where
  "existingBalanceOf env emailKey st =
     (let existingIpfsHash = (case emailToIpfsMap st emailKey of None \<Rightarrow> [] | Some h \<Rightarrow> h)
      in if existingIpfsHash \<noteq> [] then fetchJson env st dedicatedGateway existingIpfsHash
         else inMemoryBalances st emailKey)"

text \<open>
  \<^verbatim>\<open>storeUserBalance\<close>. The template \<^verbatim>\<open>`https://gateway.pinata.cloud/ipfs/${cid}`\<close>
  prints a missing \<^verbatim>\<open>IpfsHash\<close> as \<^verbatim>\<open>undefined\<close>.
\<close>

definition storeUserBalance ::
    "Runtime \<Rightarrow> Env \<Rightarrow> StoreRequest \<Rightarrow> Store \<Rightarrow> (StoreError + StoreResponse) \<times> Store" where
  "storeUserBalance rt env req st =
     (if s_userEmail req = [] \<or> s_amount req = 0 \<or> s_adminSignature req = []
         \<or> s_ticketId req = []
      then (Inl StoreMissingFields, st)
      else
        (let emailKey = toLowerCase rt (s_userEmail req);
             st1 = (case s_userId req of
                      None \<Rightarrow> st
                    | Some u \<Rightarrow>
                        if u \<noteq> [] then st\<lparr>userIdToEmail := (userIdToEmail st)(u \<mapsto> emailKey)\<rparr>
                        else st);
             ub = updatedBalance rt env req emailKey (existingBalanceOf env emailKey st1);
             inMemory = (\<lambda>note.
               (Inr \<lparr>s_cid = Some [], s_balance = totalBalance ub, s_ipfsUrl = [],
                     s_note = Some note\<rparr>,
                setMemory emailKey ub st1))
         in if pinataCreds env then
              (case pinUpload env of
                 UploadThrows \<Rightarrow> (Inl StoreFailed, st1)
               | UploadNotOk \<Rightarrow> inMemory ''Stored in-memory (Pinata not available)''
               | UploadOk cid hash \<Rightarrow>
                   (Inr \<lparr>s_cid = hash, s_balance = totalBalance ub,
                         s_ipfsUrl = ''https://gateway.pinata.cloud/ipfs/''
                                     @ (case hash of None \<Rightarrow> ''undefined'' | Some h \<Rightarrow> h),
                         s_note = None\<rparr>,
                    setHash emailKey hash (pin cid ub st1)))
            else inMemory ''Stored in-memory (Pinata credentials missing)''))"

subsection \<open>Marketplace (routes/marketplace)\<close>

datatype MarketError =
    MissingFields         \<comment> \<open>400 Missing required fields\<close>
  | InvalidSignature      \<comment> \<open>400 Invalid signature\<close>
  | InsufficientBalance   \<comment> \<open>400 Insufficient token balance, Insufficient rupees balance\<close>
  | NotFound              \<comment> \<open>404 Listing not found\<close>
  | ListingUnavailable    \<comment> \<open>400 Listing not available\<close>
  | SelfTrade             \<comment> \<open>400 Cannot buy your own listing\<close>
  | ServerError           \<comment> \<open>500, an exception caught by the handler\<close>

text \<open>\<^verbatim>\<open>pinJSON\<close>: \<open>Inl ()\<close> when the upload request throws, else the content id or null.\<close>

definition pinJSON :: "Env \<Rightarrow> unit + string option" where
  "pinJSON env =
     (if \<not> pinataCreds env then Inr None
      else (case pinUpload env of
              UploadThrows \<Rightarrow> Inl ()
            | UploadNotOk \<Rightarrow> Inr None
            | UploadOk cid hash \<Rightarrow> Inr hash))"

definition saveListings :: "Env \<Rightarrow> Store \<Rightarrow> unit + Store" where
  "saveListings env st =
     (case pinJSON env of
        Inl e \<Rightarrow> Inl e
      | Inr None \<Rightarrow> Inr st
      | Inr (Some cid) \<Rightarrow> Inr (if cid \<noteq> [] then st\<lparr>listingsCid := Some cid\<rparr> else st))"

definition saveOrders :: "Env \<Rightarrow> Store \<Rightarrow> unit + Store" where
  "saveOrders env st =
     (case pinJSON env of
        Inl e \<Rightarrow> Inl e
      | Inr None \<Rightarrow> Inr st
      | Inr (Some cid) \<Rightarrow> Inr (if cid \<noteq> [] then st\<lparr>ordersCid := Some cid\<rparr> else st))"

record Metadata =
  reason :: string
  m_listingId :: "string option"
  counterpartyEmail :: "string option"

definition txNote :: "Metadata \<Rightarrow> string" where
  "txNote metadata =
     reason metadata
     @ (case m_listingId metadata of
          None \<Rightarrow> []
        | Some l \<Rightarrow> if l \<noteq> [] then ''|listing:'' @ l else [])
     @ (case counterpartyEmail metadata of
          None \<Rightarrow> []
        | Some c \<Rightarrow> if c \<noteq> [] then ''|cp:'' @ c else [])"

text \<open>\<^verbatim>\<open>current?.rupeesBalance ?? 100\<close>, also \<^verbatim>\<open>balBuyer?.rupeesBalance ?? 100\<close>\<close>

definition rupeesOf :: "UserBalance option \<Rightarrow> rat" where
  "rupeesOf bal =
     (case bal of None \<Rightarrow> 100 | Some b \<Rightarrow> (case rupeesBalance b of None \<Rightarrow> 100 | Some r \<Rightarrow> r))"

text \<open>\<^verbatim>\<open>current?.totalBalance || 0\<close>, also \<^verbatim>\<open>bal?.totalBalance || 0\<close>\<close>

definition tokensOf :: "UserBalance option \<Rightarrow> rat" where
  "tokensOf bal = (case bal of None \<Rightarrow> 0 | Some b \<Rightarrow> orZero (totalBalance b))"

text \<open>
  \<^verbatim>\<open>updateUserBalanceByEmail\<close>: one read for the answer it returns, then one call of
  \<^verbatim>\<open>storeUserBalanceInternal\<close>. The two steps have an \<open>Env\<close> each.
\<close>

definition updateUserBalanceByEmail ::
    "Runtime \<Rightarrow> Env \<Rightarrow> Env \<Rightarrow> string \<Rightarrow> rat \<Rightarrow> rat \<Rightarrow> Metadata \<Rightarrow> Store
      \<Rightarrow> (unit + Balances) \<times> Store" where
  "updateUserBalanceByEmail rt envRead envStore email deltaTokens deltaRupees metadata st =
     (let (current, st1) = getUserBalanceByEmailInternal rt envRead email st;
          newTokens = add rt (tokensOf current) deltaTokens;
          newRupees = add rt (rupeesOf current) deltaRupees;
          (stored, st2) =
            storeUserBalanceInternal rt envStore
              \<lparr>a_userEmail = email,
               a_userId = (case current of None \<Rightarrow> None | Some c \<Rightarrow> userId c),
               a_walletAddress = (case current of None \<Rightarrow> None | Some c \<Rightarrow> walletAddress c),
               a_amount = deltaTokens,
               a_adminSignature = txNote metadata,
               a_ticketId = ''market_'' @ nowMs envStore,
               a_deltaRupees = Some deltaRupees\<rparr> st1
      in case stored of
           Inl e \<Rightarrow> (Inl e, st2)
         | Inr nb \<Rightarrow> (Inr \<lparr>b_totalBalance = newTokens, b_rupeesBalance = newRupees\<rparr>, st2))"

text \<open>
  \<^verbatim>\<open>createListing\<close>: \<open>envRead\<close> answers the balance check, \<open>envSave\<close> the rest.
  \<open>newListing\<close> is the listing object it puts in front of the array.
\<close>

definition newListing :: "Runtime \<Rightarrow> Env \<Rightarrow> CreateListingRequest \<Rightarrow> MarketplaceListing" where
  "newListing rt env req =
     \<lparr>l_id = uuid env, sellerEmail = toLowerCase rt (c_sellerEmail req),
      sellerUserId = c_sellerUserId req, sellerWallet = c_sellerWallet req,
      amountTokens = c_amountTokens req, priceRupees = c_priceRupees req,
      status = Active, createdAt = nowIso env, updatedAt = nowIso env\<rparr>"

definition createListing ::
    "Runtime \<Rightarrow> Env \<Rightarrow> Env \<Rightarrow> CreateListingRequest \<Rightarrow> Store
      \<Rightarrow> (MarketError + MarketplaceListing) \<times> Store" where
  "createListing rt envRead envSave req st =
     (if c_sellerEmail req = [] \<or> c_sellerWallet req = [] \<or> c_amountTokens req = 0
         \<or> c_priceRupees req = 0 \<or> c_signature req = []
      then (Inl MissingFields, st)
      else if length (c_signature req) < 10 then (Inl InvalidSignature, st)
      else
        (let (bal, st1) = getUserBalanceByEmailInternal rt envRead (c_sellerEmail req) st;
             available = tokensOf bal
         in if available < c_amountTokens req then (Inl InsufficientBalance, st1)
            else
              (let listing = newListing rt envSave req;
                   st2 = st1\<lparr>listings := listing # listings st1\<rparr>
               in case saveListings envSave st2 of
                    Inl e \<Rightarrow> (Inl ServerError, st2)
                  | Inr st3 \<Rightarrow> (Inr listing, st3))))"

definition statusName :: "ListingStatus \<Rightarrow> string" where
  "statusName s = (case s of Active \<Rightarrow> ''active'' | Sold \<Rightarrow> ''sold'' | Cancelled \<Rightarrow> ''cancelled'')"

definition listListings :: "string \<Rightarrow> Store \<Rightarrow> MarketplaceListing list" where
  "listListings query st =
     (let wanted = (if query \<noteq> [] then query else ''active'')
      in filter (\<lambda>l. statusName (status l) = wanted) (listings st))"

text \<open>
  A listing object is known by its place counted from the end of the array: listings
  are only ever put in front (\<^verbatim>\<open>unshift\<close>) and never removed, so the place of an object
  does not change. \<open>findRef\<close> is \<^verbatim>\<open>listings.find((l) => l.id === listingId)\<close>: the place
  and the value of the first listing with the id. \<open>soldAt\<close> is the pair of assignments
  \<^verbatim>\<open>listing.status = "sold"; listing.updatedAt = ...\<close> on the object at a place.
\<close>

fun findRef :: "string \<Rightarrow> MarketplaceListing list \<Rightarrow> (nat \<times> MarketplaceListing) option" where
  "findRef lid [] = None"
| "findRef lid (l # ls) = (if l_id l = lid then Some (length ls, l) else findRef lid ls)"

definition soldAt :: "nat \<Rightarrow> string \<Rightarrow> MarketplaceListing list \<Rightarrow> MarketplaceListing list" where
  "soldAt ref now ls =
     (if ref < length ls
      then ls[length ls - 1 - ref := (ls ! (length ls - 1 - ref))\<lparr>status := Sold, updatedAt := now\<rparr>]
      else ls)"

record BuyEnv =
  checkEnv :: Env
  buyerReadEnv :: Env
  buyerStoreEnv :: Env
  sellerReadEnv :: Env
  sellerStoreEnv :: Env
  listingsEnv :: Env
  ordersEnv :: Env

text \<open>
  The first block of \<^verbatim>\<open>buyListing\<close>, up to its first \<^verbatim>\<open>await\<close>: the four fields, the
  lookup, the status and the seller. It answers an error or the listing it holds from
  then on.
\<close>

definition buyChecks ::
    "Runtime \<Rightarrow> BuyListingRequest \<Rightarrow> MarketplaceListing list
      \<Rightarrow> MarketError + nat \<times> MarketplaceListing" where
  "buyChecks rt req ls =
     (if listingId req = [] \<or> buyerEmail req = [] \<or> buyerWallet req = [] \<or> signature req = []
      then Inl MissingFields
      else
        (case findRef (listingId req) ls of
           None \<Rightarrow> Inl NotFound
         | Some (ref, listing) \<Rightarrow>
             if status listing \<noteq> Active then Inl ListingUnavailable
             else if sellerEmail listing = toLowerCase rt (buyerEmail req) then Inl SelfTrade
             else Inr (ref, listing)))"

text \<open>The end of \<^verbatim>\<open>buyListing\<close>, from the two balance updates on.\<close>

definition settle ::
    "Runtime \<Rightarrow> BuyEnv \<Rightarrow> BuyListingRequest \<Rightarrow> nat \<Rightarrow> MarketplaceListing \<Rightarrow> Store
      \<Rightarrow> (MarketError + BuyListingResponse) \<times> Store" where
  "settle rt E req ref listing st =
     (case updateUserBalanceByEmail rt (buyerReadEnv E) (buyerStoreEnv E) (buyerEmail req)
             (amountTokens listing) (- priceRupees listing)
             \<lparr>reason = ''market_buy'', m_listingId = Some (l_id listing),
              counterpartyEmail = Some (sellerEmail listing)\<rparr> st of
        (Inl e, st1) \<Rightarrow> (Inl ServerError, st1)
      | (Inr buyerBal, st1) \<Rightarrow>
          (case updateUserBalanceByEmail rt (sellerReadEnv E) (sellerStoreEnv E)
                  (sellerEmail listing) (- amountTokens listing) (priceRupees listing)
                  \<lparr>reason = ''market_sell'', m_listingId = Some (l_id listing),
                   counterpartyEmail = Some (buyerEmail req)\<rparr> st1 of
             (Inl e, st2) \<Rightarrow> (Inl ServerError, st2)
           | (Inr sellerBal, st2) \<Rightarrow>
               (let sold = listing\<lparr>status := Sold, updatedAt := nowIso (listingsEnv E)\<rparr>;
                    st3 = st2\<lparr>listings := soldAt ref (nowIso (listingsEnv E)) (listings st2)\<rparr>
                in case saveListings (listingsEnv E) st3 of
                     Inl e \<Rightarrow> (Inl ServerError, st3)
                   | Inr st4 \<Rightarrow>
                       (let order =
                              \<lparr>o_id = uuid (ordersEnv E), o_listingId = l_id listing,
                               o_buyerEmail = toLowerCase rt (buyerEmail req),
                               o_buyerUserId = buyerUserId req, o_buyerWallet = buyerWallet req,
                               o_amountTokens = amountTokens listing,
                               o_totalRupees = priceRupees listing, o_status = Completed,
                               o_adminSignature = Some (signature req),
                               o_createdAt = nowIso (ordersEnv E)\<rparr>;
                            st5 = st4\<lparr>orders := order # orders st4\<rparr>
                        in case saveOrders (ordersEnv E) st5 of
                             Inl e \<Rightarrow> (Inl ServerError, st5)
                           | Inr st6 \<Rightarrow>
                               (Inr \<lparr>r_listing = sold, r_order = order,
                                     buyerBalance = buyerBal, sellerBalance = sellerBal\<rparr>,
                                st6)))))"

definition buyListing ::
    "Runtime \<Rightarrow> BuyEnv \<Rightarrow> BuyListingRequest \<Rightarrow> Store
      \<Rightarrow> (MarketError + BuyListingResponse) \<times> Store" where
  "buyListing rt E req st =
     (case buyChecks rt req (listings st) of
        Inl e \<Rightarrow> (Inl e, st)
      | Inr (ref, listing) \<Rightarrow>
          (let (balBuyer, st1) =
                 getUserBalanceByEmailInternal rt (checkEnv E) (buyerEmail req) st
           in if rupeesOf balBuyer < priceRupees listing then (Inl InsufficientBalance, st1)
              else settle rt E req ref listing st1))"

subsection \<open>The listing array while calls are suspended\<close>

text \<open>
  Every handler is asynchronous: at each \<^verbatim>\<open>await\<close> other calls run. Three statements
  of the code touch the listing array or a listing: the \<^verbatim>\<open>unshift\<close> of
  \<^verbatim>\<open>createListing\<close>, the first block of \<^verbatim>\<open>buyListing\<close>, which reads the array and,
  when its checks pass, holds the listing object it found, and the two assignments by
  which a purchase that holds a listing marks it sold, whatever has happened to the
  listing since the checks. An event is one of the three, or any other statement; the
  state is the array and the listings held by the purchases that have passed their
  checks.
\<close>

datatype ListingEvent =
    Unshift Env CreateListingRequest
  | Checks BuyListingRequest
  | MarkSold nat string
  | Elsewhere

fun listingEvent ::
    "Runtime \<Rightarrow> ListingEvent \<Rightarrow> MarketplaceListing list \<times> nat list
      \<Rightarrow> MarketplaceListing list \<times> nat list" where
  "listingEvent rt (Unshift env req) (ls, held) = (newListing rt env req # ls, held)"
| "listingEvent rt (Checks req) (ls, held) =
     (case buyChecks rt req ls of Inl e \<Rightarrow> (ls, held) | Inr (ref, listing) \<Rightarrow> (ls, ref # held))"
| "listingEvent rt (MarkSold i now) (ls, held) =
     (if i < length held then (soldAt (held ! i) now ls, held) else (ls, held))"
| "listingEvent rt Elsewhere (ls, held) = (ls, held)"

definition listingEvents ::
    "Runtime \<Rightarrow> ListingEvent list \<Rightarrow> MarketplaceListing list \<times> nat list
      \<Rightarrow> MarketplaceListing list \<times> nat list" where
  "listingEvents rt events s = foldl (\<lambda>s e. listingEvent rt e s) s events"

subsection \<open>The snapshots while calls are suspended\<close>

text \<open>
  The statements that read or write a snapshot, as the events of a process in which any
  number of calls are suspended between their read and their write. The state is the
  store and the snapshots that the calls in flight have loaded, \<open>None\<close> for the
  \<^verbatim>\<open>null\<close> of a failed fetch and for the absence of a snapshot in memory. A read loads
  the snapshot in memory, a pinned document as it is (\<^verbatim>\<open>storeUserBalance\<close>) or with its
  rupees coerced, the default snapshot, or nothing; it may remember a hash. A write of
  \<^verbatim>\<open>storeUserBalanceInternal\<close> or of \<^verbatim>\<open>storeUserBalance\<close> builds its snapshot from one
  that was loaded and puts it in memory or pins it; the edge handler keeps in memory the
  document it loaded. \<open>Unrelated\<close> is any statement on the other fields of the store.
\<close>

datatype Target = ToMemory | ToPin string

datatype LedgerEvent =
    Remember string "string option"
  | LoadMemory string
  | LoadPinned string
  | LoadCoerced string
  | LoadDefault string string
  | LoadNothing
  | WriteInternal nat Env StoreArgs string Target
  | WriteRoute nat Env StoreRequest string Target
  | Cache nat string
  | Unrelated Store

definition put :: "Target \<Rightarrow> string \<Rightarrow> UserBalance \<Rightarrow> Store \<Rightarrow> Store" where
  "put target key doc st =
     (case target of ToMemory \<Rightarrow> setMemory key doc st | ToPin cid \<Rightarrow> pin cid doc st)"

fun ledgerEvent ::
    "Runtime \<Rightarrow> LedgerEvent \<Rightarrow> Store \<times> UserBalance option list
      \<Rightarrow> Store \<times> UserBalance option list" where
  "ledgerEvent rt (Remember key hash) (st, loaded) = (setHash key hash st, loaded)"
| "ledgerEvent rt (LoadMemory key) (st, loaded) = (st, inMemoryBalances st key # loaded)"
| "ledgerEvent rt (LoadPinned cid) (st, loaded) = (st, ipfs st cid # loaded)"
| "ledgerEvent rt (LoadCoerced cid) (st, loaded) =
     (st, map_option coerceRupees (ipfs st cid) # loaded)"
| "ledgerEvent rt (LoadDefault key now) (st, loaded) =
     (st, Some (defaultBalance key now) # loaded)"
| "ledgerEvent rt LoadNothing (st, loaded) = (st, None # loaded)"
| "ledgerEvent rt (WriteInternal i env args key target) (st, loaded) =
     (if i < length loaded
      then (put target key
              (newBal rt env args key
                 (case loaded ! i of Some e \<Rightarrow> e | None \<Rightarrow> freshBalance env args key)) st,
            loaded)
      else (st, loaded))"
| "ledgerEvent rt (WriteRoute i env req key target) (st, loaded) =
     (if i < length loaded
      then (put target key (updatedBalance rt env req key (loaded ! i)) st, loaded)
      else (st, loaded))"
| "ledgerEvent rt (Cache i key) (st, loaded) =
     (if i < length loaded
      then (case loaded ! i of Some doc \<Rightarrow> (setMemory key doc st, loaded) | None \<Rightarrow> (st, loaded))
      else (st, loaded))"
| "ledgerEvent rt (Unrelated other) (st, loaded) =
     (st\<lparr>userIdToEmail := userIdToEmail other, listings := listings other,
         orders := orders other, listingsCid := listingsCid other,
         ordersCid := ordersCid other\<rparr>, loaded)"

definition ledgerEvents ::
    "Runtime \<Rightarrow> LedgerEvent list \<Rightarrow> Store \<times> UserBalance option list
      \<Rightarrow> Store \<times> UserBalance option list" where
  "ledgerEvents rt events s = foldl (\<lambda>s e. ledgerEvent rt e s) s events"

subsection \<open>A runtime, surroundings and stores for the examples\<close>

text \<open>
  The runtime of the examples: \<^verbatim>\<open>toLowerCase\<close> as JavaScript computes it on code units
  below 256 (the letters \<^verbatim>\<open>A-Z\<close> and the capital letters of Latin-1 move up by 32), and
  the exact sum, which is the \<^verbatim>\<open>+\<close> of doubles wherever that does not round, as on
  whole numbers below \<open>2^53\<close>. The examples use no other strings and numbers.
\<close>

definition lower_char :: "char \<Rightarrow> char" where
  "lower_char c =
     (let n = (of_char c :: nat)
      in if (65 \<le> n \<and> n \<le> 90) \<or> (192 \<le> n \<and> n \<le> 222 \<and> n \<noteq> 215) then char_of (n + 32)
         else c)"

definition exampleRuntime :: Runtime where
  "exampleRuntime = \<lparr>toLowerCase = map lower_char, add = (\<lambda>x y. x + y)\<rparr>"



text \<open>
  A process without Pinata credentials and without network: every balance lives in
  \<open>inMemoryBalances\<close>. The listing of seller \<open>a@x.com\<close> and the requests against it are
  the scenario of the marketplace.
\<close>

definition offline :: Env where
  "offline =
     \<lparr>pinataCreds = False, pinSearch = (\<lambda>k. []), fetchOk = (\<lambda>u. False),
      pinUpload = UploadNotOk, nowIso = ''2025-01-01T00:00:00.000Z'',
      nowMs = ''1735689600000'', rand = ''k3j9x2a'', uuid = ''listing-1''\<rparr>"

definition offlineBuy :: BuyEnv where
  "offlineBuy =
     \<lparr>checkEnv = offline, buyerReadEnv = offline, buyerStoreEnv = offline,
      sellerReadEnv = offline, sellerStoreEnv = offline, listingsEnv = offline,
      ordersEnv = offline\<rparr>"

definition listingOfA :: "rat \<Rightarrow> rat \<Rightarrow> ListingStatus \<Rightarrow> MarketplaceListing" where
  "listingOfA tokens price st =
     \<lparr>l_id = ''listing-1'', sellerEmail = ''a@x.com'', sellerUserId = None,
      sellerWallet = ''0xa11ce'', amountTokens = tokens, priceRupees = price, status = st,
      createdAt = ''2025-01-01T00:00:00.000Z'', updatedAt = ''2025-01-01T00:00:00.000Z''\<rparr>"

definition marketOf :: "MarketplaceListing \<Rightarrow> Store" where
  "marketOf l = initialStore\<lparr>listings := [l]\<rparr>"

definition buyBy :: "string \<Rightarrow> string \<Rightarrow> BuyListingRequest" where
  "buyBy email sig =
     \<lparr>listingId = ''listing-1'', buyerEmail = email, buyerUserId = None,
      buyerWallet = ''0xb0b'', signature = sig\<rparr>"

text \<open>A process whose gateway answers; still without credentials.\<close>

definition online :: Env where
  "online = offline\<lparr>fetchOk := (\<lambda>u. True)\<rparr>"

text \<open>
  A process with credentials while Pinata is out of reach: the gateway does not answer,
  the pin search finds nothing and the upload is refused.
\<close>

definition pinataDown :: Env where
  "pinataDown = offline\<lparr>pinataCreds := True\<rparr>"

text \<open>The same process once the gateway answers again.\<close>

definition gatewayBack :: Env where
  "gatewayBack = pinataDown\<lparr>fetchOk := (\<lambda>u. True)\<rparr>"

definition pinataDownBuy :: BuyEnv where
  "pinataDownBuy =
     \<lparr>checkEnv = pinataDown, buyerReadEnv = pinataDown, buyerStoreEnv = pinataDown,
      sellerReadEnv = pinataDown, sellerStoreEnv = pinataDown, listingsEnv = pinataDown,
      ordersEnv = pinataDown\<rparr>"

text \<open>The balance of \<open>a@x.com\<close> after one approval of 50 tokens.\<close>

definition seedTx :: Transaction where
  "seedTx =
     \<lparr>tx_id = ''tx_1735689600000_k3j9x2a'', tx_amount = 50, tx_adminSignature = ''0xadmin'',
      tx_timestamp = ''2025-01-01T00:00:00.000Z'', tx_ticketId = ''ticket-1'',
      tx_walletAddress = Some ''0xa11ce'', tx_userEmail = ''a@x.com'', tx_adminEmail = None\<rparr>"

definition docOfA :: "rat option \<Rightarrow> UserBalance" where
  "docOfA rupees =
     \<lparr>userEmail = ''a@x.com'', userId = Some ''uid-a'', walletAddress = Some ''0xa11ce'',
      totalBalance = 50, rupeesBalance = rupees, transactions = [seedTx],
      lastUpdated = ''2025-01-01T00:00:00.000Z''\<rparr>"


text \<open>A document pinned without \<^verbatim>\<open>rupeesBalance\<close>, known to the process by its hash.\<close>

definition legacyStore :: Store where
  "legacyStore =
     initialStore\<lparr>emailToIpfsMap := [''a@x.com'' \<mapsto> ''QmLegacy''],
                  ipfs := [''QmLegacy'' \<mapsto> docOfA None]\<rparr>"


text \<open>The same document pinned before the account had a user id and a wallet address.\<close>

definition anonymousStore :: Store where
  "anonymousStore =
     initialStore\<lparr>emailToIpfsMap := [''a@x.com'' \<mapsto> ''QmA''],
                  ipfs := [''QmA'' \<mapsto> (docOfA (Some 100))\<lparr>userId := None,
                                                          walletAddress := None\<rparr>]\<rparr>"

text \<open>
  The market with the listing of \<open>a@x.com\<close> at 20 rupees, where the pinned document of the
  buyer \<open>b@x.com\<close> holds 10 rupees.
\<close>

definition docOfB :: UserBalance where
  "docOfB =
     \<lparr>userEmail = ''b@x.com'', userId = None, walletAddress = Some ''0xb0b'',
      totalBalance = 0, rupeesBalance = Some 10, transactions = [],
      lastUpdated = ''2025-01-01T00:00:00.000Z''\<rparr>"

definition poorBuyerMarket :: Store where
  "poorBuyerMarket =
     (marketOf (listingOfA 20 20 Active))
       \<lparr>emailToIpfsMap := [''b@x.com'' \<mapsto> ''QmB''], ipfs := [''QmB'' \<mapsto> docOfB]\<rparr>"

text \<open>An approval of tokens for \<open>a@x.com\<close>.\<close>

definition approval :: "rat \<Rightarrow> StoreRequest" where
  "approval amount =
     \<lparr>s_userEmail = ''a@x.com'', s_userId = Some ''uid-a'', s_walletAddress = Some ''0xa11ce'',
      s_amount = amount, s_adminSignature = ''0xadmin'', s_ticketId = ''ticket-1'',
      s_adminEmail = None\<rparr>"

definition negativeRequest :: CreateListingRequest where
  "negativeRequest =
     \<lparr>c_sellerEmail = ''a@x.com'', c_sellerUserId = None, c_sellerWallet = ''0xa11ce'',
      c_amountTokens = - 5, c_priceRupees = - 5, c_signature = ''0x0123456789''\<rparr>"

definition otherIds :: StoreArgs where
  "otherIds =
     \<lparr>a_userEmail = ''a@x.com'', a_userId = Some ''uid-other'', a_walletAddress = None,
      a_amount = 5, a_adminSignature = ''0xadmin'', a_ticketId = ''ticket-2'',
      a_deltaRupees = None\<rparr>"

subsection \<open>Predicates of the properties\<close>

text \<open>
  \<open>written env key nb s s'\<close>: \<open>s'\<close> is \<open>s\<close> after the snapshot \<open>nb\<close> has been written for
  the account \<open>key\<close>. Without credentials, or when the upload is refused, it replaces the
  snapshot of the key in \<open>inMemoryBalances\<close>. When the upload succeeds it is pinned,
  \<open>inMemoryBalances\<close> stays as it is, and the hash that the upload reports, if any, is
  remembered for the key. An upload request that throws writes nothing.
\<close>

definition written :: "Env \<Rightarrow> string \<Rightarrow> UserBalance \<Rightarrow> Store \<Rightarrow> Store \<Rightarrow> bool" where
  "written env key nb s s' \<longleftrightarrow>
     (case (if pinataCreds env then pinUpload env else UploadNotOk) of
        UploadThrows \<Rightarrow> False
      | UploadNotOk \<Rightarrow> s' = s\<lparr>inMemoryBalances := (inMemoryBalances s)(key \<mapsto> nb)\<rparr>
      | UploadOk cid hash \<Rightarrow>
          (case hash of
             None \<Rightarrow> s' = s\<lparr>ipfs := (ipfs s)(cid \<mapsto> nb)\<rparr>
           | Some h \<Rightarrow>
               if h \<noteq> []
               then s' = s\<lparr>ipfs := (ipfs s)(cid \<mapsto> nb),
                           emailToIpfsMap := (emailToIpfsMap s)(key \<mapsto> h)\<rparr>
               else s' = s\<lparr>ipfs := (ipfs s)(cid \<mapsto> nb)\<rparr>))"

text \<open>
  \<open>deltaApplied rt env email tokens rupees s s'\<close>: between \<open>s\<close> and \<open>s'\<close> one delta has been
  applied to the account of \<open>email\<close>. The snapshot \<open>found\<close> is what a read of the account
  returns in \<open>s\<close>; the snapshot \<open>nb\<close> that is written has the token balance of \<open>found\<close>
  plus \<open>tokens\<close> (0 plus \<open>tokens\<close> when the read fails), the rupee balance of \<open>found\<close>
  plus \<open>rupees\<close> (100 plus \<open>rupees\<close> when the read fails or \<open>found\<close> has none), and the
  transactions of \<open>found\<close> and one more, of amount \<open>tokens\<close>. Nothing else changes but what
  the read remembers.
\<close>

definition deltaApplied ::
    "Runtime \<Rightarrow> Env \<Rightarrow> string \<Rightarrow> rat \<Rightarrow> rat \<Rightarrow> Store \<Rightarrow> Store \<Rightarrow> bool" where
  "deltaApplied rt env email tokens rupees s s' \<longleftrightarrow>
     (\<exists>found s0 nb.
        getUserBalanceByEmailInternal rt env (toLowerCase rt email) s = (found, s0)
      \<and> totalBalance nb = add rt (tokensOf found) tokens
      \<and> rupeesBalance nb = Some (add rt (rupeesOf found) rupees)
      \<and> map tx_amount (transactions nb)
          = map tx_amount (case found of None \<Rightarrow> [] | Some e \<Rightarrow> transactions e) @ [tokens]
      \<and> written env (toLowerCase rt email) nb s0 s')"

text \<open>
  A snapshot is balanced when its token balance is what adding up the amounts of its
  transactions, in their order and with the \<^verbatim>\<open>+\<close> of the runtime, gives; a state is,
  when every snapshot in memory, every pinned document and every loaded snapshot is.
\<close>

definition balanced :: "Runtime \<Rightarrow> UserBalance \<Rightarrow> bool" where
  "balanced rt b \<longleftrightarrow> totalBalance b = foldl (add rt) 0 (map tx_amount (transactions b))"

definition ledgerBalanced :: "Runtime \<Rightarrow> Store \<times> UserBalance option list \<Rightarrow> bool" where
  "ledgerBalanced rt s \<longleftrightarrow>
     (\<forall>k b. inMemoryBalances (fst s) k = Some b \<longrightarrow> balanced rt b) \<and>
     (\<forall>c b. ipfs (fst s) c = Some b \<longrightarrow> balanced rt b) \<and>
     (\<forall>b. Some b \<in> set (snd s) \<longrightarrow> balanced rt b)"

text \<open>
  \<open>asEvents rt s s'\<close>: some events lead from the store \<open>s\<close> to the store \<open>s'\<close>, whatever
  the calls in flight have loaded.
\<close>

definition asEvents :: "Runtime \<Rightarrow> Store \<Rightarrow> Store \<Rightarrow> bool" where
  "asEvents rt s s' \<longleftrightarrow>
     (\<exists>events. \<forall>loaded. \<exists>loaded'. ledgerEvents rt events (s, loaded) = (s', loaded'))"

text \<open>
  The listing object at a place, and the states of the listing array in which every
  listing held by a purchase in flight exists and is not cancelled. No statement of the
  code cancels a listing, and a purchase holds a listing it found active.
\<close>

definition listingAt :: "MarketplaceListing list \<Rightarrow> nat \<Rightarrow> MarketplaceListing" where
  "listingAt ls ref = ls ! (length ls - 1 - ref)"

definition heldListings :: "MarketplaceListing list \<times> nat list \<Rightarrow> bool" where
  "heldListings s \<longleftrightarrow>
     (\<forall>r \<in> set (snd s). r < length (fst s) \<and> status (listingAt (fst s) r) \<noteq> Cancelled)"

section \<open>Properties\<close>

subsection \<open>Keys and reads of the examples\<close>

lemma orZero_id [simp]: "orZero x = x"
  by (simp add: orZero_def)

lemma runtime_add [simp]: "add exampleRuntime x y = x + y"
  by (simp add: exampleRuntime_def)

lemma lower_a [simp]: "toLowerCase exampleRuntime ''a@x.com'' = ''a@x.com''"
  by (simp add: exampleRuntime_def lower_char_def)

lemma lower_b [simp]: "toLowerCase exampleRuntime ''b@x.com'' = ''b@x.com''"
  by (simp add: exampleRuntime_def lower_char_def)

lemma lower_c [simp]: "toLowerCase exampleRuntime ''c@x.com'' = ''c@x.com''"
  by (simp add: exampleRuntime_def lower_char_def)

lemma lower_A: "toLowerCase exampleRuntime ''A@x.com'' = ''a@x.com''"
  by (simp add: exampleRuntime_def) code_simp

lemmas fixtures =
  offline_def offlineBuy_def listingOfA_def marketOf_def buyBy_def initialStore_def

subsection \<open>What a read leaves alone\<close>

lemma resolveHash_frame:
  "resolveHash env k st = (h, st1) \<Longrightarrow>
     inMemoryBalances st1 = inMemoryBalances st \<and> ipfs st1 = ipfs st \<and>
     listings st1 = listings st \<and> orders st1 = orders st \<and>
     userIdToEmail st1 = userIdToEmail st \<and>
     listingsCid st1 = listingsCid st \<and> ordersCid st1 = ordersCid st"
  by (auto simp: resolveHash_def Let_def split: if_splits)

lemma getInternal_frame:
  "getUserBalanceByEmailInternal rt env email st = (r, st1) \<Longrightarrow>
     inMemoryBalances st1 = inMemoryBalances st \<and> ipfs st1 = ipfs st \<and>
     listings st1 = listings st \<and> orders st1 = orders st \<and>
     userIdToEmail st1 = userIdToEmail st \<and>
     listingsCid st1 = listingsCid st \<and> ordersCid st1 = ordersCid st"
  by (auto simp: getUserBalanceByEmailInternal_def Let_def
      split: option.splits prod.splits if_splits dest: resolveHash_frame)

lemma read_b_fresh:
  "getUserBalanceByEmailInternal exampleRuntime offline ''b@x.com'' (marketOf l)
     = (Some (defaultBalance ''b@x.com'' ''2025-01-01T00:00:00.000Z''), marketOf l)"
  by (simp add: getUserBalanceByEmailInternal_def resolveHash_def fixtures)




subsection \<open>The validation of a listing\<close>

text \<open>
  C7. \<^verbatim>\<open>createListing\<close> answers \<open>MissingFields\<close> exactly when the seller email, the
  seller wallet or the signature is empty or the token amount or the price is 0, and
  \<open>InvalidSignature\<close> exactly when nothing is missing and the signature has fewer than
  10 characters. No other validation error exists: an amount or a price below 0 passes
  both checks.
\<close>

theorem listing_validation:
  "(fst (createListing rt envRead envSave req st) = Inl MissingFields
      \<longleftrightarrow> c_sellerEmail req = [] \<or> c_sellerWallet req = [] \<or> c_amountTokens req = 0
          \<or> c_priceRupees req = 0 \<or> c_signature req = [])
 \<and> (fst (createListing rt envRead envSave req st) = Inl InvalidSignature
      \<longleftrightarrow> c_sellerEmail req \<noteq> [] \<and> c_sellerWallet req \<noteq> [] \<and> c_amountTokens req \<noteq> 0
          \<and> c_priceRupees req \<noteq> 0 \<and> c_signature req \<noteq> [] \<and> length (c_signature req) < 10)"
  by (auto simp: createListing_def Let_def split: prod.splits sum.splits option.splits)

theorem listing_validation_witness:
  "fst (createListing exampleRuntime offline offline (negativeRequest\<lparr>c_amountTokens := 0\<rparr>)
         initialStore)
     = Inl MissingFields
   \<and> fst (createListing exampleRuntime offline offline
            (negativeRequest\<lparr>c_signature := ''0xshort''\<rparr>) initialStore)
     = Inl InvalidSignature"
  using listing_validation [of exampleRuntime offline offline
      "negativeRequest\<lparr>c_amountTokens := 0\<rparr>" initialStore]
    listing_validation [of exampleRuntime offline offline
      "negativeRequest\<lparr>c_signature := ''0xshort''\<rparr>" initialStore]
  by (simp add: negativeRequest_def)

theorem listing_validation_counterexample:
  "fst (createListing exampleRuntime offline offline negativeRequest initialStore)
     = Inr \<lparr>l_id = ''listing-1'', sellerEmail = ''a@x.com'', sellerUserId = None,
            sellerWallet = ''0xa11ce'', amountTokens = - 5, priceRupees = - 5, status = Active,
            createdAt = ''2025-01-01T00:00:00.000Z'', updatedAt = ''2025-01-01T00:00:00.000Z''\<rparr>"
  by (simp add: createListing_def newListing_def negativeRequest_def
      getUserBalanceByEmailInternal_def resolveHash_def defaultBalance_def tokensOf_def
      saveListings_def pinJSON_def Let_def fixtures)

subsection \<open>The default of 100 rupees on the read paths\<close>

text \<open>
  C5. For a key with no balance in memory, no content hash and no pin found, the Express
  route \<^verbatim>\<open>getUserBalanceByEmail\<close> answers a snapshot with token balance 0 and no
  \<^verbatim>\<open>rupeesBalance\<close> at all, where the internal helper and the edge handler answer the
  default snapshot with 100 rupees.
\<close>

theorem route_default_without_rupees:
  "fst (getUserBalanceByEmail exampleRuntime offline ''c@x.com'' initialStore)
     = Inr \<lparr>userEmail = ''c@x.com'', userId = None, walletAddress = None, totalBalance = 0,
            rupeesBalance = None, transactions = [],
            lastUpdated = ''2025-01-01T00:00:00.000Z''\<rparr>"
  by (simp add: getUserBalanceByEmail_def resolveHash_def routeFallback_def Let_def fixtures)

lemma siblings_default_with_rupees:
  "fst (getUserBalanceByEmailInternal exampleRuntime offline ''c@x.com'' initialStore)
     = Some (defaultBalance ''c@x.com'' ''2025-01-01T00:00:00.000Z'')"
  "fst (emailHandler exampleRuntime offline ''c@x.com'' initialStore)
     = Inr (defaultBalance ''c@x.com'' ''2025-01-01T00:00:00.000Z'', Some ''No balance data found'')"
  "rupeesBalance (defaultBalance k t) = Some 100" "totalBalance (defaultBalance k t) = 0"
  by (simp_all add: getUserBalanceByEmailInternal_def emailHandler_def resolveHash_def
      defaultBalance_def Let_def fixtures)

text \<open>
  C10. For a pinned document without \<^verbatim>\<open>rupeesBalance\<close>, the Express route
  \<^verbatim>\<open>getUserBalanceByEmail\<close> answers the document as it is pinned, where the internal
  helper and the edge handler answer it with 100 rupees.
\<close>

theorem route_returns_document_without_rupees:
  "fst (getUserBalanceByEmail exampleRuntime online ''a@x.com'' legacyStore) = Inr (docOfA None)"
  by (simp add: getUserBalanceByEmail_def resolveHash_def fetchJson_def legacyStore_def
      online_def Let_def fixtures)

lemma siblings_coerce_rupees:
  "fst (getUserBalanceByEmailInternal exampleRuntime online ''a@x.com'' legacyStore)
     = Some (docOfA (Some 100))"
  "fst (emailHandler exampleRuntime online ''a@x.com'' legacyStore) = Inr (docOfA (Some 100), None)"
  by (simp_all add: getUserBalanceByEmailInternal_def emailHandler_def resolveHash_def
      fetchJson_def legacyStore_def online_def coerceRupees_def docOfA_def ipfsGateways_def
      Let_def fixtures)

subsection \<open>Two reads in a row\<close>




subsection \<open>The checks of a purchase\<close>

lemma findRef_Some:
  "findRef lid ls = Some (ref, L) \<Longrightarrow> l_id L = lid \<and> ref < length ls \<and> listingAt ls ref = L"
proof (induction ls)
  case Nil
  then show ?case by simp
next
  case (Cons l ls)
  show ?case
  proof (cases "l_id l = lid")
    case True
    then show ?thesis using Cons.prems by (auto simp: listingAt_def)
  next
    case False
    then have "findRef lid ls = Some (ref, L)" using Cons.prems by simp
    then have "l_id L = lid \<and> ref < length ls \<and> listingAt ls ref = L" by (rule Cons.IH)
    then show ?thesis by (auto simp: listingAt_def Suc_diff_Suc)
  qed
qed

lemma buyChecks_passed:
  "buyChecks rt req ls = Inr (ref, L) \<longleftrightarrow>
     listingId req \<noteq> [] \<and> buyerEmail req \<noteq> [] \<and> buyerWallet req \<noteq> [] \<and> signature req \<noteq> []
     \<and> findRef (listingId req) ls = Some (ref, L) \<and> status L = Active
     \<and> sellerEmail L \<noteq> toLowerCase rt (buyerEmail req)"
  by (auto simp: buyChecks_def split: option.splits)

lemma settle_not_insufficient: "fst (settle rt E req ref L st) \<noteq> Inl InsufficientBalance"
  by (auto simp: settle_def Let_def split: prod.splits sum.splits)

lemmas evaluation =
  buyListing_def buyChecks_def settle_def updateUserBalanceByEmail_def
  storeUserBalanceInternal_def persist_def freshBalance_def
  getUserBalanceByEmailInternal_def resolveHash_def fetchJson_def newBal_def
  internalTransaction_def defaultBalance_def rupeesOf_def tokensOf_def txNote_def
  setMemory_def saveListings_def saveOrders_def pinJSON_def soldAt_def Let_def

text \<open>
  C6. A purchase that carries its four fields, finds its listing active and is not a
  self-trade reads the buyer's balance once. When the rupees of the snapshot that this
  read returns (100 when the read fails or the snapshot has none) are below the price,
  the call answers \<open>InsufficientBalance\<close> and neither the stored balances, the pinned
  documents, the listings nor the orders change; otherwise the call goes on to the
  settlement, which never answers \<open>InsufficientBalance\<close>.
\<close>

theorem buy_rupee_check:
  assumes "listingId req \<noteq> []" "buyerEmail req \<noteq> []" "buyerWallet req \<noteq> []"
      "signature req \<noteq> []"
    and "findRef (listingId req) (listings st) = Some (ref, L)"
    and "status L = Active"
    and "sellerEmail L \<noteq> toLowerCase rt (buyerEmail req)"
    and "getUserBalanceByEmailInternal rt (checkEnv E) (buyerEmail req) st = (balBuyer, st1)"
  shows "(rupeesOf balBuyer < priceRupees L \<longrightarrow>
            fst (buyListing rt E req st) = Inl InsufficientBalance
          \<and> inMemoryBalances (snd (buyListing rt E req st)) = inMemoryBalances st
          \<and> ipfs (snd (buyListing rt E req st)) = ipfs st
          \<and> listings (snd (buyListing rt E req st)) = listings st
          \<and> orders (snd (buyListing rt E req st)) = orders st)
       \<and> (\<not> rupeesOf balBuyer < priceRupees L \<longrightarrow>
            buyListing rt E req st = settle rt E req ref L st1
          \<and> fst (buyListing rt E req st) \<noteq> Inl InsufficientBalance)"
proof -
  have c: "buyChecks rt req (listings st) = Inr (ref, L)"
    using assms(1-7) by (simp add: buyChecks_passed)
  show ?thesis
    using c assms(8) getInternal_frame [OF assms(8)]
      settle_not_insufficient [of rt E req ref L st1]
    by (simp add: buyListing_def)
qed

theorem buy_rupee_check_witness:
  "fst (buyListing exampleRuntime offlineBuy (buyBy ''b@x.com'' ''0xsig'')
         (marketOf (listingOfA 20 150 Active)))
     = Inl InsufficientBalance
   \<and> inMemoryBalances (snd (buyListing exampleRuntime offlineBuy (buyBy ''b@x.com'' ''0xsig'')
        (marketOf (listingOfA 20 150 Active)))) = Map.empty"
proof -
  have r: "getUserBalanceByEmailInternal exampleRuntime (checkEnv offlineBuy)
             (buyerEmail (buyBy ''b@x.com'' ''0xsig'')) (marketOf (listingOfA 20 150 Active))
           = (Some (defaultBalance ''b@x.com'' ''2025-01-01T00:00:00.000Z''),
              marketOf (listingOfA 20 150 Active))"
    using read_b_fresh by (simp add: offlineBuy_def buyBy_def)
  have lt: "rupeesOf (Some (defaultBalance ''b@x.com'' ''2025-01-01T00:00:00.000Z''))
              < priceRupees (listingOfA 20 150 Active)"
    by (simp add: rupeesOf_def defaultBalance_def listingOfA_def)
  show ?thesis
    using buy_rupee_check [where rt = exampleRuntime and E = offlineBuy
        and req = "buyBy ''b@x.com'' ''0xsig''"
        and st = "marketOf (listingOfA 20 150 Active)" and L = "listingOfA 20 150 Active"
        and ref = 0, OF _ _ _ _ _ _ _ r] lt
    by (simp add: fixtures)
qed

text \<open>
  The pinned snapshot of the buyer holds 10 rupees and the listing costs 20. While the
  gateway does not answer, the read of the check returns \<^verbatim>\<open>null\<close>, the check takes 100
  rupees for the balance, and the purchase succeeds.
\<close>

theorem buy_rupee_check_counterexample:
  "map_option rupeesBalance
     (ipfs poorBuyerMarket (the (emailToIpfsMap poorBuyerMarket ''b@x.com''))) = Some (Some 10)
   \<and> map priceRupees (listings poorBuyerMarket) = [20]
   \<and> map_sum id buyerBalance
       (fst (buyListing exampleRuntime pinataDownBuy (buyBy ''b@x.com'' ''0xsig'') poorBuyerMarket))
     = Inr \<lparr>b_totalBalance = 20, b_rupeesBalance = 80\<rparr>"
  by (simp add: poorBuyerMarket_def docOfB_def pinataDownBuy_def pinataDown_def evaluation
      fixtures)

text \<open>Once the gateway answers, the same purchase is refused.\<close>

lemma buy_rupee_check_gateway:
  "fst (buyListing exampleRuntime (pinataDownBuy\<lparr>checkEnv := gatewayBack\<rparr>)
          (buyBy ''b@x.com'' ''0xsig'') poorBuyerMarket)
     = Inl InsufficientBalance"
  by (simp add: poorBuyerMarket_def docOfB_def pinataDownBuy_def gatewayBack_def pinataDown_def
      coerceRupees_def evaluation fixtures)

text \<open>
  C4. A purchase that carries its four fields and names an active listing whose seller
  key is the lower-cased buyer email answers \<open>SelfTrade\<close> and changes nothing, whatever
  the surroundings and the balances are. A purchase with an empty listing id, buyer
  email, buyer wallet or signature answers \<open>MissingFields\<close> and changes nothing,
  whatever the listing and its seller are.
\<close>

theorem self_trade:
  "(listingId req \<noteq> [] \<and> buyerEmail req \<noteq> [] \<and> buyerWallet req \<noteq> [] \<and> signature req \<noteq> []
      \<and> findRef (listingId req) (listings st) = Some (ref, L) \<and> status L = Active
      \<and> sellerEmail L = toLowerCase rt (buyerEmail req)
      \<longrightarrow> buyListing rt E req st = (Inl SelfTrade, st))
 \<and> (listingId req = [] \<or> buyerEmail req = [] \<or> buyerWallet req = [] \<or> signature req = []
      \<longrightarrow> buyListing rt E req st = (Inl MissingFields, st))"
  by (auto simp: buyListing_def buyChecks_def)

theorem self_trade_witness:
  "buyListing exampleRuntime offlineBuy (buyBy ''A@x.com'' ''0xsig'')
     (marketOf (listingOfA 20 20 Active))
     = (Inl SelfTrade, marketOf (listingOfA 20 20 Active))
   \<and> buyListing exampleRuntime offlineBuy (buyBy ''A@x.com'' [])
       (marketOf (listingOfA 20 20 Active))
     = (Inl MissingFields, marketOf (listingOfA 20 20 Active))"
  using self_trade [where rt = exampleRuntime and E = offlineBuy
        and req = "buyBy ''A@x.com'' ''0xsig''"
        and st = "marketOf (listingOfA 20 20 Active)" and L = "listingOfA 20 20 Active"
        and ref = 0]
    self_trade [where rt = exampleRuntime and E = offlineBuy and req = "buyBy ''A@x.com'' []"
        and st = "marketOf (listingOfA 20 20 Active)"]
  by (simp add: fixtures lower_A)

theorem self_trade_counterexample:
  "fst (buyListing exampleRuntime offlineBuy (buyBy ''a@x.com'' [])
         (marketOf (listingOfA 20 20 Active)))
     = Inl MissingFields"
  by (simp add: buyListing_def buyChecks_def buyBy_def)

subsection \<open>Snapshots written and read\<close>








text \<open>
  The store route loads the pinned document of the remembered hash even when a newer
  snapshot is in memory. Here the pinned document has no user id; a delta application
  gives the account one, in memory; an approval through the route then writes a snapshot
  without it, and that is what the account is read with from then on.
\<close>

lemma route_replaces_ids:
  "map_option userId
     (fst (getUserBalanceByEmailInternal exampleRuntime gatewayBack ''a@x.com''
            (snd (storeUserBalanceInternal exampleRuntime gatewayBack otherIds anonymousStore))))
     = Some (Some ''uid-other'')
   \<and> map_option userId
       (fst (getUserBalanceByEmailInternal exampleRuntime gatewayBack ''a@x.com''
              (snd (storeUserBalance exampleRuntime gatewayBack (approval 3)
                     (snd (storeUserBalanceInternal exampleRuntime gatewayBack otherIds
                            anonymousStore))))))
     = Some None"
  by (simp add: anonymousStore_def gatewayBack_def pinataDown_def otherIds_def docOfA_def
      approval_def storeUserBalance_def existingBalanceOf_def updatedBalance_def
      newTransaction_def coerceRupees_def evaluation fixtures)

subsection \<open>Listings that are no longer active\<close>

lemma listingAt_Cons: "ref < length ls \<Longrightarrow> listingAt (l # ls) ref = listingAt ls ref"
  by (simp add: listingAt_def Suc_diff_Suc)

lemma soldAt_length: "length (soldAt r now ls) = length ls"
  by (simp add: soldAt_def)

lemma soldAt_other:
  "ref < length ls \<Longrightarrow> ref \<noteq> r \<Longrightarrow> listingAt (soldAt r now ls) ref = listingAt ls ref"
  by (auto simp: soldAt_def listingAt_def)

lemma soldAt_same:
  "r < length ls \<Longrightarrow>
     listingAt (soldAt r now ls) r = (listingAt ls r)\<lparr>status := Sold, updatedAt := now\<rparr>"
  by (simp add: soldAt_def listingAt_def)

lemma soldAt_status:
  assumes "ref < length ls"
  shows "status (listingAt (soldAt r now ls) ref)
           = (if ref = r then Sold else status (listingAt ls ref))"
  using assms soldAt_other [of ref ls r now] soldAt_same [of r ls now] by simp

lemma heldListings_none: "heldListings (ls, [])"
  by (simp add: heldListings_def)

text \<open>One event keeps the held listings in the array and not cancelled.\<close>

lemma event_held:
  assumes "heldListings s"
  shows "heldListings (listingEvent rt e s)"
proof (cases s)
  case (Pair ls held)
  have h: "\<forall>r \<in> set held. r < length ls \<and> status (listingAt ls r) \<noteq> Cancelled"
    using assms Pair by (simp add: heldListings_def)
  show ?thesis
  proof (cases e)
    case (Unshift env req)
    then show ?thesis
      using h Pair by (auto simp: heldListings_def listingAt_Cons)
  next
    case (Checks req)
    show ?thesis
    proof (cases "buyChecks rt req ls")
      case (Inl err)
      then show ?thesis using h Pair Checks by (simp add: heldListings_def)
    next
      case (Inr p)
      obtain ref L where p: "p = (ref, L)" by (cases p)
      have "findRef (listingId req) ls = Some (ref, L)" and "status L = Active"
        using Inr p by (simp_all add: buyChecks_passed)
      then have "ref < length ls \<and> status (listingAt ls ref) \<noteq> Cancelled"
        using findRef_Some [of "listingId req" ls ref L] by simp
      then show ?thesis using h Pair Checks Inr p by (simp add: heldListings_def)
    qed
  next
    case (MarkSold i now)
    then show ?thesis
      using h Pair by (auto simp: heldListings_def soldAt_length soldAt_status)
  next
    case Elsewhere
    then show ?thesis using h Pair by (simp add: heldListings_def)
  qed
qed

text \<open>One event keeps the status of a listing that is not active.\<close>

lemma event_status:
  assumes "heldListings (ls, held)" and "ref < length ls"
    and "status (listingAt ls ref) \<noteq> Active"
  shows "ref < length (fst (listingEvent rt e (ls, held)))
       \<and> status (listingAt (fst (listingEvent rt e (ls, held))) ref) = status (listingAt ls ref)"
proof (cases e)
  case (Unshift env req)
  then show ?thesis using assms(2) by (simp add: listingAt_Cons)
next
  case (Checks req)
  then show ?thesis using assms(2) by (simp split: sum.splits prod.splits)
next
  case (MarkSold i now)
  show ?thesis
  proof (cases "i < length held \<and> held ! i = ref")
    case True
    then have "ref \<in> set held" by auto
    then have "status (listingAt ls ref) \<noteq> Cancelled"
      using assms(1) by (simp add: heldListings_def)
    then have "status (listingAt ls ref) = Sold"
      using assms(3) by (cases "status (listingAt ls ref)") simp_all
    then show ?thesis
      using MarkSold True assms(2) by (simp add: soldAt_length soldAt_status)
  next
    case False
    then show ?thesis
      using MarkSold assms(2) by (auto simp: soldAt_length soldAt_status)
  qed
next
  case Elsewhere
  then show ?thesis using assms(2) by simp
qed

lemma events_status:
  assumes "heldListings s" and "ref < length (fst s)"
    and "status (listingAt (fst s) ref) \<noteq> Active"
  shows "ref < length (fst (listingEvents rt events s))
       \<and> status (listingAt (fst (listingEvents rt events s)) ref) = status (listingAt (fst s) ref)"
  using assms
proof (induction events arbitrary: s)
  case Nil
  then show ?case by (simp add: listingEvents_def)
next
  case (Cons e events)
  obtain ls held where s: "s = (ls, held)" by (cases s)
  let ?t = "listingEvent rt e s"
  have st: "ref < length (fst ?t) \<and> status (listingAt (fst ?t) ref) = status (listingAt ls ref)"
    using event_status [of ls held ref rt e] Cons.prems s by simp
  have held: "heldListings ?t" using event_held [OF Cons.prems(1)] .
  have "ref < length (fst (listingEvents rt events ?t))
       \<and> status (listingAt (fst (listingEvents rt events ?t)) ref) = status (listingAt (fst ?t) ref)"
    using Cons.IH [OF held] st Cons.prems(3) s by simp
  then show ?case using st s by (simp add: listingEvents_def)
qed

lemma buy_unavailable:
  assumes "findRef (listingId req) (listings st) = Some (ref, L)" and "status L \<noteq> Active"
  shows "buyListing rt E req st =
     (if listingId req = [] \<or> buyerEmail req = [] \<or> buyerWallet req = [] \<or> signature req = []
      then (Inl MissingFields, st) else (Inl ListingUnavailable, st))"
  using assms by (simp add: buyListing_def buyChecks_def)

text \<open>
  C3. Whatever statements of whatever calls run, in whatever order, and whatever
  purchases are in flight: a listing that is sold or cancelled keeps its status, and a
  purchase that finds it from then on changes nothing, holds no listing and is answered
  \<open>ListingUnavailable\<close>, or \<open>MissingFields\<close> when one of the four fields of the request
  is empty. The states are those in which the purchases in flight hold listings that
  are not cancelled, as in a process that has just started and ever after.
\<close>

theorem listing_terminality:
  assumes "heldListings (ls, held)"
    and "ref < length ls" and "status (listingAt ls ref) \<noteq> Active"
    and "listingEvents rt events (ls, held) = (ls', held')"
  shows "ref < length ls'
       \<and> status (listingAt ls' ref) = status (listingAt ls ref)
       \<and> (listings st = ls' \<and> findRef (listingId req) ls' = Some (ref, L) \<longrightarrow>
            buyListing rt E req st =
              (if listingId req = [] \<or> buyerEmail req = [] \<or> buyerWallet req = []
                  \<or> signature req = []
               then (Inl MissingFields, st) else (Inl ListingUnavailable, st))
          \<and> listingEvent rt (Checks req) (ls', held') = (ls', held'))"
proof -
  have kept: "ref < length ls' \<and> status (listingAt ls' ref) = status (listingAt ls ref)"
    using events_status [of "(ls, held)" ref rt events] assms by simp
  have "buyListing rt E req st =
          (if listingId req = [] \<or> buyerEmail req = [] \<or> buyerWallet req = []
              \<or> signature req = []
           then (Inl MissingFields, st) else (Inl ListingUnavailable, st))
        \<and> listingEvent rt (Checks req) (ls', held') = (ls', held')"
    if f: "listings st = ls' \<and> findRef (listingId req) ls' = Some (ref, L)"
  proof -
    have "listingAt ls' ref = L" using f findRef_Some [of "listingId req" ls' ref L] by simp
    then have na: "status L \<noteq> Active" using kept assms(3) by simp
    have "\<not> (\<exists>p. buyChecks rt req ls' = Inr p)" using f na by (auto simp: buyChecks_passed)
    then have "listingEvent rt (Checks req) (ls', held') = (ls', held')"
      by (cases "buyChecks rt req ls'") auto
    then show ?thesis using buy_unavailable [of req st ref L rt E] f na by simp
  qed
  then show ?thesis using kept by blast
qed

theorem listing_terminality_witness:
  "status (listingAt (fst (listingEvents exampleRuntime
       [MarkSold 0 ''2025-01-02T00:00:00.000Z'', Checks (buyBy ''b@x.com'' ''0xsig'')]
       ([listingOfA 20 20 Sold], [0]))) 0) = Sold
   \<and> buyListing exampleRuntime offlineBuy (buyBy ''b@x.com'' ''0xsig'')
       (marketOf ((listingOfA 20 20 Sold)\<lparr>updatedAt := ''2025-01-02T00:00:00.000Z''\<rparr>))
     = (Inl ListingUnavailable,
        marketOf ((listingOfA 20 20 Sold)\<lparr>updatedAt := ''2025-01-02T00:00:00.000Z''\<rparr>))"
proof -
  let ?L = "(listingOfA 20 20 Sold)\<lparr>updatedAt := ''2025-01-02T00:00:00.000Z''\<rparr>"
  let ?req = "buyBy ''b@x.com'' ''0xsig''"
  have e: "listingEvents exampleRuntime [MarkSold 0 ''2025-01-02T00:00:00.000Z'', Checks ?req]
       ([listingOfA 20 20 Sold], [0]) = ([?L], [0])"
    by (simp add: listingEvents_def soldAt_def buyChecks_def listingOfA_def buyBy_def)
  have h: "heldListings ([listingOfA 20 20 Sold], [0])"
    by (simp add: heldListings_def listingAt_def listingOfA_def)
  have s: "status (listingAt [listingOfA 20 20 Sold] 0) \<noteq> Active"
    by (simp add: listingAt_def listingOfA_def)
  have f: "listings (marketOf ?L) = [?L] \<and> findRef (listingId ?req) [?L] = Some (0, ?L)"
    by (simp add: marketOf_def buyBy_def listingOfA_def)
  have n: "listingId ?req \<noteq> [] \<and> buyerEmail ?req \<noteq> [] \<and> buyerWallet ?req \<noteq> []
      \<and> signature ?req \<noteq> []"
    by (simp add: buyBy_def)
  have "status (listingAt [?L] 0) = status (listingAt [listingOfA 20 20 Sold] 0)
      \<and> buyListing exampleRuntime offlineBuy ?req (marketOf ?L)
          = (Inl ListingUnavailable, marketOf ?L)"
    using listing_terminality [OF h _ s e, of "marketOf ?L" ?req ?L offlineBuy] f n by simp
  then show ?thesis unfolding e by (simp add: listingAt_def listingOfA_def)
qed

theorem listing_terminality_counterexample:
  "fst (buyListing exampleRuntime offlineBuy (buyBy ''b@x.com'' [])
         (marketOf (listingOfA 20 20 Sold)))
     = Inl MissingFields"
  by (simp add: buyListing_def buyChecks_def buyBy_def)

text \<open>
  Two purchases that both pass their checks while the listing is active both mark it
  sold: the second one finds it sold already and changes its \<^verbatim>\<open>updatedAt\<close>.
\<close>

lemma sold_twice:
  "listingEvents exampleRuntime
     [Checks (buyBy ''b@x.com'' ''0xsig''), Checks (buyBy ''c@x.com'' ''0xsig''),
      MarkSold 1 ''2025-01-02T00:00:00.000Z'', MarkSold 0 ''2025-01-03T00:00:00.000Z'']
     ([listingOfA 20 20 Active], [])
   = ([(listingOfA 20 20 Sold)\<lparr>updatedAt := ''2025-01-03T00:00:00.000Z''\<rparr>], [0, 0])"
  by (simp add: listingEvents_def soldAt_def buyChecks_def listingOfA_def buyBy_def)

text \<open>
  What the calls do to the listing array is made of the events: a call of
  \<^verbatim>\<open>createListing\<close> leaves the array or puts its listing in front, a call of
  \<^verbatim>\<open>buyListing\<close> that runs alone leaves it or marks the listing it holds, and the reads
  and writes of balances leave it.
\<close>

lemma resolveHash_listings: "listings (snd (resolveHash env k st)) = listings st"
  by (simp add: resolveHash_def Let_def)

lemma getInternal_listings:
  "listings (snd (getUserBalanceByEmailInternal rt env email st)) = listings st"
  by (auto simp: getUserBalanceByEmailInternal_def Let_def resolveHash_def
      split: option.splits prod.splits)

lemma getRoute_listings: "listings (snd (getUserBalanceByEmail rt env email st)) = listings st"
  by (auto simp: getUserBalanceByEmail_def Let_def resolveHash_def
      split: option.splits prod.splits)

lemma getEdge_listings: "listings (snd (emailHandler rt env email st)) = listings st"
  by (auto simp: emailHandler_def Let_def resolveHash_def
      split: option.splits prod.splits)

lemma persist_listings: "persist env k nb st = Inr st' \<Longrightarrow> listings st' = listings st"
  by (auto simp: persist_def setMemory_def setHash_def pin_def
      split: if_splits Upload.splits option.splits)

lemma storeInternal_listings:
  "listings (snd (storeUserBalanceInternal rt env args st)) = listings st"
  using getInternal_listings [of rt env "toLowerCase rt (a_userEmail args)" st]
  by (auto simp: storeUserBalanceInternal_def Let_def
      split: prod.splits sum.splits dest: persist_listings)

lemma update_listings:
  "listings (snd (updateUserBalanceByEmail rt e1 e2 email dt dr m st)) = listings st"
proof -
  obtain cur st1 where r: "getUserBalanceByEmailInternal rt e1 email st = (cur, st1)"
    by (cases "getUserBalanceByEmailInternal rt e1 email st")
  then have "listings st1 = listings st"
    using getInternal_listings [of rt e1 email st] by simp
  then show ?thesis
    using r
    by (auto simp: updateUserBalanceByEmail_def Let_def storeInternal_listings
        split: prod.splits sum.splits
        dest: arg_cong [where f = "\<lambda>p. listings (snd p)"])
qed

lemma store_listings: "listings (snd (storeUserBalance rt env req st)) = listings st"
  by (auto simp: storeUserBalance_def Let_def setMemory_def setHash_def pin_def
      split: option.splits Upload.splits)

lemma saveListings_listings: "saveListings env st = Inr st' \<Longrightarrow> listings st' = listings st"
  by (auto simp: saveListings_def split: sum.splits option.splits if_splits)

lemma saveOrders_listings: "saveOrders env st = Inr st' \<Longrightarrow> listings st' = listings st"
  by (auto simp: saveOrders_def split: sum.splits option.splits if_splits)

lemma create_listings:
  "listings (snd (createListing rt e1 e2 req st)) = listings st \<or>
   listings (snd (createListing rt e1 e2 req st))
     = fst (listingEvent rt (Unshift e2 req) (listings st, held))"
  using getInternal_listings [of rt e1 "c_sellerEmail req" st]
  by (auto simp: createListing_def Let_def split: prod.splits sum.splits
      dest: saveListings_listings)

lemma settle_listings:
  "listings (snd (settle rt E req ref L st)) = listings st \<or>
   listings (snd (settle rt E req ref L st)) = soldAt ref (nowIso (listingsEnv E)) (listings st)"
proof -
  let ?mb = "\<lparr>reason = ''market_buy'', m_listingId = Some (l_id L),
              counterpartyEmail = Some (sellerEmail L)\<rparr>"
  let ?ms = "\<lparr>reason = ''market_sell'', m_listingId = Some (l_id L),
              counterpartyEmail = Some (buyerEmail req)\<rparr>"
  obtain rb st1 where b: "updateUserBalanceByEmail rt (buyerReadEnv E) (buyerStoreEnv E)
      (buyerEmail req) (amountTokens L) (- priceRupees L) ?mb st = (rb, st1)"
    by (cases "updateUserBalanceByEmail rt (buyerReadEnv E) (buyerStoreEnv E) (buyerEmail req)
      (amountTokens L) (- priceRupees L) ?mb st")
  obtain rs st2 where s: "updateUserBalanceByEmail rt (sellerReadEnv E) (sellerStoreEnv E)
      (sellerEmail L) (- amountTokens L) (priceRupees L) ?ms st1 = (rs, st2)"
    by (cases "updateUserBalanceByEmail rt (sellerReadEnv E) (sellerStoreEnv E) (sellerEmail L)
      (- amountTokens L) (priceRupees L) ?ms st1")
  have l1: "listings st1 = listings st"
    using update_listings [of rt "buyerReadEnv E" "buyerStoreEnv E" "buyerEmail req"
        "amountTokens L" "- priceRupees L" ?mb st] b by simp
  have l2: "listings st2 = listings st1"
    using update_listings [of rt "sellerReadEnv E" "sellerStoreEnv E" "sellerEmail L"
        "- amountTokens L" "priceRupees L" ?ms st1] s by simp
  show ?thesis
    using b s l1 l2
    by (auto simp: settle_def Let_def split: sum.splits
        dest!: saveListings_listings saveOrders_listings)
qed

lemma buy_listings:
  "listings (snd (buyListing rt E req st)) = listings st \<or>
   listings (snd (buyListing rt E req st))
     = fst (listingEvents rt [Checks req, MarkSold 0 (nowIso (listingsEnv E))] (listings st, held))"
proof (cases "buyChecks rt req (listings st)")
  case (Inl e)
  then show ?thesis by (simp add: buyListing_def)
next
  case (Inr p)
  obtain ref L where p: "p = (ref, L)" by (cases p)
  obtain bal st1 where
    r: "getUserBalanceByEmailInternal rt (checkEnv E) (buyerEmail req) st = (bal, st1)"
    by (cases "getUserBalanceByEmailInternal rt (checkEnv E) (buyerEmail req) st")
  have l1: "listings st1 = listings st"
    using getInternal_listings [of rt "checkEnv E" "buyerEmail req" st] r by simp
  show ?thesis
    using Inr p r l1 settle_listings [of rt E req ref L st1]
    by (auto simp: buyListing_def listingEvents_def)
qed

subsection \<open>The two updates of a purchase\<close>





lemma saveListings_ledger:
  "saveListings env st = Inr st' \<Longrightarrow>
     inMemoryBalances st' = inMemoryBalances st \<and> ipfs st' = ipfs st \<and>
     emailToIpfsMap st' = emailToIpfsMap st \<and> orders st' = orders st"
  by (auto simp: saveListings_def split: sum.splits option.splits if_splits)

lemma saveOrders_ledger:
  "saveOrders env st = Inr st' \<Longrightarrow>
     inMemoryBalances st' = inMemoryBalances st \<and> ipfs st' = ipfs st \<and>
     emailToIpfsMap st' = emailToIpfsMap st \<and> orders st' = orders st"
  by (auto simp: saveOrders_def split: sum.splits option.splits if_splits)



lemma read_memory:
  "inMemoryBalances s (toLowerCase rt email) = Some m \<Longrightarrow>
     getUserBalanceByEmailInternal rt env email s = (Some m, s)"
  by (simp add: getUserBalanceByEmailInternal_def)



text \<open>
  A delta that is pinned leaves the snapshot in memory as it was, and the reads go on
  returning that one.
\<close>

lemma pinned_delta_not_read:
  assumes "deltaApplied rt env email tokens rupees s s'"
    and "pinataCreds env" and "pinUpload env = UploadOk cid hash"
    and "inMemoryBalances s (toLowerCase rt (toLowerCase rt email)) = Some m"
  shows "getUserBalanceByEmailInternal rt env' (toLowerCase rt email) s' = (Some m, s')"
proof -
  from assms(1) obtain found s0 nb where
    r: "getUserBalanceByEmailInternal rt env (toLowerCase rt email) s = (found, s0)"
    and w: "written env (toLowerCase rt email) nb s0 s'"
    unfolding deltaApplied_def by blast
  have "inMemoryBalances s0 = inMemoryBalances s" using getInternal_frame [OF r] by simp
  moreover have "inMemoryBalances s' = inMemoryBalances s0"
    using w assms(2,3) by (auto simp: written_def split: option.splits if_splits)
  ultimately show ?thesis using assms(4) by (simp add: read_memory)
qed

subsection \<open>The balance and the amounts of the transactions\<close>





lemma balanced_default: "balanced rt (defaultBalance k t)"
  by (simp add: balanced_def defaultBalance_def)

lemma balanced_fresh: "balanced rt (freshBalance env args k)"
  by (simp add: balanced_def freshBalance_def)

lemma balanced_coerce: "balanced rt (coerceRupees b) = balanced rt b"
  by (simp add: balanced_def coerceRupees_def split: option.splits)

lemma balanced_newBal: "balanced rt ex \<Longrightarrow> balanced rt (newBal rt env args k ex)"
  by (simp add: balanced_def newBal_def internalTransaction_def)

lemma balanced_updated:
  assumes "\<forall>x. add rt 0 x = x" and "\<forall>e. ex = Some e \<longrightarrow> balanced rt e"
  shows "balanced rt (updatedBalance rt env req k ex)"
  using assms by (cases ex) (simp_all add: balanced_def updatedBalance_def newTransaction_def)


lemma put_balanced:
  assumes "ledgerBalanced rt (st, loaded)" and "balanced rt doc"
  shows "ledgerBalanced rt (put target key doc st, loaded)"
  using assms
  by (cases target) (auto simp: ledgerBalanced_def put_def setMemory_def pin_def)

lemma load_balanced:
  assumes "ledgerBalanced rt (st, loaded)" and "\<forall>b. x = Some b \<longrightarrow> balanced rt b"
  shows "ledgerBalanced rt (st, x # loaded)"
  using assms by (auto simp: ledgerBalanced_def)

lemma loaded_balanced:
  assumes "ledgerBalanced rt (st, loaded)" and "i < length loaded" and "loaded ! i = Some b"
  shows "balanced rt b"
proof -
  have "Some b \<in> set loaded" using assms(2,3) nth_mem [of i loaded] by simp
  then show ?thesis using assms(1) by (simp add: ledgerBalanced_def)
qed

text \<open>One event keeps the state balanced.\<close>

lemma event_balanced:
  assumes zero: "\<forall>x. add rt 0 x = x" and inv: "ledgerBalanced rt s"
  shows "ledgerBalanced rt (ledgerEvent rt e s)"
proof (cases s)
  case (Pair st loaded)
  have b: "ledgerBalanced rt (st, loaded)" using inv Pair by simp
  show ?thesis
  proof (cases e)
    case (Remember key hash)
    then show ?thesis using b Pair by (simp add: ledgerBalanced_def setHash_def)
  next
    case (LoadMemory key)
    have "\<forall>d. inMemoryBalances st key = Some d \<longrightarrow> balanced rt d"
      using b by (simp add: ledgerBalanced_def)
    then show ?thesis using load_balanced [OF b] LoadMemory Pair by simp
  next
    case (LoadPinned cid)
    have "\<forall>d. ipfs st cid = Some d \<longrightarrow> balanced rt d"
      using b by (simp add: ledgerBalanced_def)
    then show ?thesis using load_balanced [OF b] LoadPinned Pair by simp
  next
    case (LoadCoerced cid)
    have "\<forall>d. map_option coerceRupees (ipfs st cid) = Some d \<longrightarrow> balanced rt d"
      using b by (auto simp: ledgerBalanced_def balanced_coerce)
    then show ?thesis using load_balanced [OF b] LoadCoerced Pair by simp
  next
    case (LoadDefault key now)
    then show ?thesis using load_balanced [OF b] Pair by (simp add: balanced_default)
  next
    case LoadNothing
    then show ?thesis using load_balanced [OF b] Pair by simp
  next
    case (WriteInternal i env args key target)
    show ?thesis
    proof (cases "i < length loaded")
      case True
      have "balanced rt (case loaded ! i of Some e \<Rightarrow> e | None \<Rightarrow> freshBalance env args key)"
        using loaded_balanced [OF b True]
        by (cases "loaded ! i") (simp_all add: balanced_fresh)
      then show ?thesis
        using WriteInternal Pair True put_balanced [OF b] by (simp add: balanced_newBal)
    next
      case False
      then show ?thesis using WriteInternal Pair b by simp
    qed
  next
    case (WriteRoute i env req key target)
    show ?thesis
    proof (cases "i < length loaded")
      case True
      have "balanced rt (updatedBalance rt env req key (loaded ! i))"
        using balanced_updated [OF zero] loaded_balanced [OF b True] by simp
      then show ?thesis using WriteRoute Pair True put_balanced [OF b] by simp
    next
      case False
      then show ?thesis using WriteRoute Pair b by simp
    qed
  next
    case (Cache i key)
    show ?thesis
    proof (cases "i < length loaded")
      case True
      show ?thesis
      proof (cases "loaded ! i")
        case None
        then show ?thesis using Cache Pair True b by simp
      next
        case (Some doc)
        have "balanced rt doc" using loaded_balanced [OF b True Some] .
        then show ?thesis
          using Cache Pair True Some put_balanced [OF b, of doc ToMemory key]
          by (simp add: put_def)
      qed
    next
      case False
      then show ?thesis using Cache Pair b by simp
    qed
  next
    case (Unrelated other)
    then show ?thesis using b Pair by (simp add: ledgerBalanced_def)
  qed
qed

lemma events_balanced:
  assumes "\<forall>x. add rt 0 x = x" and "ledgerBalanced rt s"
  shows "ledgerBalanced rt (ledgerEvents rt events s)"
  using assms(2)
proof (induction events arbitrary: s)
  case Nil
  then show ?case by (simp add: ledgerEvents_def)
next
  case (Cons e events)
  have "ledgerBalanced rt (ledgerEvent rt e s)"
    using event_balanced [OF assms(1) Cons.prems] .
  then have "ledgerBalanced rt (ledgerEvents rt events (ledgerEvent rt e s))" by (rule Cons.IH)
  then show ?case by (simp add: ledgerEvents_def)
qed




text \<open>
  Every call is made of the events: the store after a call is reached from the store
  before it by events, whatever other calls have loaded. So the snapshots stay balanced
  under the calls, one after the other or interleaved.
\<close>

lemma asEvents_refl: "asEvents rt s s"
  unfolding asEvents_def by (rule exI [of _ "[]"]) (simp add: ledgerEvents_def)

lemma asEvents_trans:
  assumes "asEvents rt a b" and "asEvents rt b c"
  shows "asEvents rt a c"
proof -
  from assms(1) obtain e1 where
    e1: "\<And>loaded. \<exists>loaded'. ledgerEvents rt e1 (a, loaded) = (b, loaded')"
    unfolding asEvents_def by blast
  from assms(2) obtain e2 where
    e2: "\<And>loaded. \<exists>loaded'. ledgerEvents rt e2 (b, loaded) = (c, loaded')"
    unfolding asEvents_def by blast
  have "\<exists>loaded'. ledgerEvents rt (e1 @ e2) (a, loaded) = (c, loaded')" for loaded
  proof -
    from e1 [of loaded] obtain l1 where "ledgerEvents rt e1 (a, loaded) = (b, l1)" by blast
    moreover from e2 [of l1] obtain l2 where "ledgerEvents rt e2 (b, l1) = (c, l2)" by blast
    ultimately show ?thesis by (auto simp: ledgerEvents_def)
  qed
  then show ?thesis unfolding asEvents_def by blast
qed

lemma asEvents_list:
  assumes "\<And>loaded. \<exists>loaded'. ledgerEvents rt events (s, loaded) = (s', loaded')"
  shows "asEvents rt s s'"
  unfolding asEvents_def using assms by blast

lemma asEvents_remember: "asEvents rt s (setHash k h s)"
  by (rule asEvents_list [of rt "[Remember k h]"]) (simp add: ledgerEvents_def)

lemma asEvents_unrelated:
  assumes "inMemoryBalances s' = inMemoryBalances s" and "ipfs s' = ipfs s"
    and "emailToIpfsMap s' = emailToIpfsMap s"
  shows "asEvents rt s s'"
proof -
  have "s\<lparr>userIdToEmail := userIdToEmail s', listings := listings s', orders := orders s',
          listingsCid := listingsCid s', ordersCid := ordersCid s'\<rparr> = s'"
    using assms by (cases s, cases s') simp
  then show ?thesis
    by (intro asEvents_list [of rt "[Unrelated s']"]) (simp add: ledgerEvents_def)
qed

lemma resolveHash_events: "resolveHash env k st = (h, st1) \<Longrightarrow> asEvents rt st st1"
  using asEvents_remember [of rt st k "Some (pinSearch env k)"]
  by (auto simp: resolveHash_def Let_def setHash_def asEvents_refl split: if_splits)

lemma getInternal_events:
  "getUserBalanceByEmailInternal rt env email st = (found, s0) \<Longrightarrow> asEvents rt st s0"
  by (auto simp: getUserBalanceByEmailInternal_def Let_def asEvents_refl
      split: option.splits prod.splits if_splits dest: resolveHash_events)

lemma getRoute_events: "asEvents rt st (snd (getUserBalanceByEmail rt env email st))"
  by (auto simp: getUserBalanceByEmail_def Let_def asEvents_refl
      split: option.splits prod.splits if_splits dest: resolveHash_events)

text \<open>What a read returns is what one of the loads loads.\<close>

lemma getInternal_load:
  assumes "getUserBalanceByEmailInternal rt env email st = (found, s0)"
  shows "\<exists>e. \<forall>loaded. ledgerEvent rt e (s0, loaded) = (s0, found # loaded)"
proof (cases "inMemoryBalances st (toLowerCase rt email)")
  case (Some mem)
  then have "found = Some mem" and "s0 = st"
    using assms by (simp_all add: getUserBalanceByEmailInternal_def)
  then show ?thesis using Some by (intro exI [of _ "LoadMemory (toLowerCase rt email)"]) simp
next
  case None
  obtain h st1 where r: "resolveHash env (toLowerCase rt email) st = (h, st1)"
    by (cases "resolveHash env (toLowerCase rt email) st")
  show ?thesis
  proof (cases "h = []")
    case True
    then have "found = Some (defaultBalance (toLowerCase rt email) (nowIso env))"
      and "s0 = st1"
      using assms None r by (simp_all add: getUserBalanceByEmailInternal_def)
    then show ?thesis
      by (intro exI [of _ "LoadDefault (toLowerCase rt email) (nowIso env)"]) simp
  next
    case False
    show ?thesis
    proof (cases "fetchJson env st1 dedicatedGateway h")
      case None': None
      then have "found = None" and "s0 = st1"
        using assms None r False by (simp_all add: getUserBalanceByEmailInternal_def)
      then show ?thesis by (intro exI [of _ LoadNothing]) simp
    next
      case (Some bal)
      then have "found = Some (coerceRupees bal)" and "s0 = st1"
        using assms None r False by (simp_all add: getUserBalanceByEmailInternal_def)
      moreover have "ipfs st1 h = Some bal"
        using Some by (simp add: fetchJson_def split: if_splits)
      ultimately show ?thesis by (intro exI [of _ "LoadCoerced h"]) simp
    qed
  qed
qed

lemma persist_cases:
  "persist env k nb st = Inr st' \<Longrightarrow>
     st' = put ToMemory k nb st \<or> (\<exists>cid. st' = put (ToPin cid) k nb st)
     \<or> (\<exists>cid h. st' = setHash k (Some h) (put (ToPin cid) k nb st))"
  by (auto simp: persist_def put_def split: if_splits Upload.splits option.splits)

lemma storeInternal_events:
  "asEvents rt st (snd (storeUserBalanceInternal rt env args st))"
proof -
  let ?k = "toLowerCase rt (a_userEmail args)"
  obtain found s0 where r: "getUserBalanceByEmailInternal rt env ?k st = (found, s0)"
    by (cases "getUserBalanceByEmailInternal rt env ?k st")
  let ?nb = "newBal rt env args ?k
               (case found of Some e \<Rightarrow> e | None \<Rightarrow> freshBalance env args ?k)"
  have a: "asEvents rt st s0" using getInternal_events [OF r] .
  from getInternal_load [OF r] obtain e where
    e: "\<And>loaded. ledgerEvent rt e (s0, loaded) = (s0, found # loaded)" by blast
  have w: "asEvents rt s0 (put target ?k ?nb s0)" for target
    by (rule asEvents_list [of rt "[e, WriteInternal 0 env args ?k target]"])
       (simp add: ledgerEvents_def e)
  show ?thesis
  proof (cases "persist env ?k ?nb s0")
    case (Inl x)
    then show ?thesis using r a by (simp add: storeUserBalanceInternal_def Let_def)
  next
    case (Inr st2)
    from persist_cases [OF Inr] consider
        "st2 = put ToMemory ?k ?nb s0"
      | cid where "st2 = put (ToPin cid) ?k ?nb s0"
      | cid h where "st2 = setHash ?k (Some h) (put (ToPin cid) ?k ?nb s0)"
      by blast
    then have "asEvents rt s0 st2"
    proof cases
      case 1
      then show ?thesis using w [of ToMemory] by simp
    next
      case 2
      then show ?thesis using w [of "ToPin cid"] by simp
    next
      case 3
      then show ?thesis
        using asEvents_trans [OF w [of "ToPin cid"]
            asEvents_remember [of rt "put (ToPin cid) ?k ?nb s0" ?k "Some h"]]
        by simp
    qed
    then show ?thesis
      using r Inr asEvents_trans [OF a] by (simp add: storeUserBalanceInternal_def Let_def)
  qed
qed

lemma update_events:
  "asEvents rt st (snd (updateUserBalanceByEmail rt e1 e2 email dt dr m st))"
proof -
  obtain cur s1 where r: "getUserBalanceByEmailInternal rt e1 email st = (cur, s1)"
    by (cases "getUserBalanceByEmailInternal rt e1 email st")
  let ?args = "\<lparr>a_userEmail = email,
               a_userId = (case cur of None \<Rightarrow> None | Some c \<Rightarrow> userId c),
               a_walletAddress = (case cur of None \<Rightarrow> None | Some c \<Rightarrow> walletAddress c),
               a_amount = dt, a_adminSignature = txNote m,
               a_ticketId = ''market_'' @ nowMs e2, a_deltaRupees = Some dr\<rparr>"
  have "snd (updateUserBalanceByEmail rt e1 e2 email dt dr m st)
      = snd (storeUserBalanceInternal rt e2 ?args s1)"
    using r by (simp add: updateUserBalanceByEmail_def Let_def split: prod.splits sum.splits)
  then show ?thesis
    using asEvents_trans [OF getInternal_events [OF r] storeInternal_events [of rt s1 e2 ?args]]
    by simp
qed

lemma store_events: "asEvents rt st (snd (storeUserBalance rt env req st))"
proof (cases "s_userEmail req = [] \<or> s_amount req = 0 \<or> s_adminSignature req = []
    \<or> s_ticketId req = []")
  case True
  then show ?thesis by (simp add: storeUserBalance_def asEvents_refl)
next
  case False
  let ?k = "toLowerCase rt (s_userEmail req)"
  let ?st1 = "case s_userId req of
                None \<Rightarrow> st
              | Some u \<Rightarrow> if u \<noteq> [] then st\<lparr>userIdToEmail := (userIdToEmail st)(u \<mapsto> ?k)\<rparr>
                          else st"
  let ?ex = "existingBalanceOf env ?k ?st1"
  let ?ub = "updatedBalance rt env req ?k ?ex"
  have a: "asEvents rt st ?st1"
    by (rule asEvents_unrelated) (simp_all split: option.splits)
  have "\<exists>e. \<forall>loaded. ledgerEvent rt e (?st1, loaded) = (?st1, ?ex # loaded)"
  proof (cases "(case emailToIpfsMap ?st1 ?k of None \<Rightarrow> [] | Some h \<Rightarrow> h) = []")
    case True
    then show ?thesis
      by (intro exI [of _ "LoadMemory ?k"]) (simp add: existingBalanceOf_def Let_def)
  next
    case nonempty: False
    let ?h = "case emailToIpfsMap ?st1 ?k of None \<Rightarrow> [] | Some h \<Rightarrow> h"
    show ?thesis
    proof (cases "fetchOk env (dedicatedGateway @ ?h)")
      case True
      then show ?thesis
        using nonempty
        by (intro exI [of _ "LoadPinned ?h"]) (simp add: existingBalanceOf_def fetchJson_def Let_def)
    next
      case False
      then show ?thesis
        using nonempty
        by (intro exI [of _ LoadNothing]) (simp add: existingBalanceOf_def fetchJson_def Let_def)
    qed
  qed
  then obtain e where e: "\<And>loaded. ledgerEvent rt e (?st1, loaded) = (?st1, ?ex # loaded)"
    by blast
  have w: "asEvents rt ?st1 (put target ?k ?ub ?st1)" for target
    by (rule asEvents_list [of rt "[e, WriteRoute 0 env req ?k target]"])
       (simp add: ledgerEvents_def e)
  let ?up = "if pinataCreds env then pinUpload env else UploadNotOk"
  have "asEvents rt ?st1 (snd (storeUserBalance rt env req st))"
  proof (cases ?up)
    case UploadThrows
    then have "snd (storeUserBalance rt env req st) = ?st1"
      using False by (simp add: storeUserBalance_def Let_def split: if_splits)
    then show ?thesis by (simp add: asEvents_refl)
  next
    case UploadNotOk
    then have "snd (storeUserBalance rt env req st) = put ToMemory ?k ?ub ?st1"
      using False by (simp add: storeUserBalance_def Let_def put_def split: if_splits)
    then show ?thesis using w [of ToMemory] by simp
  next
    case (UploadOk cid h)
    then have "snd (storeUserBalance rt env req st) = setHash ?k h (put (ToPin cid) ?k ?ub ?st1)"
      using False by (simp add: storeUserBalance_def Let_def put_def split: if_splits)
    then show ?thesis
      using asEvents_trans [OF w [of "ToPin cid"]
          asEvents_remember [of rt "put (ToPin cid) ?k ?ub ?st1" ?k h]]
      by simp
  qed
  then show ?thesis using asEvents_trans [OF a] by blast
qed

lemma tryGateways_Some:
  "tryGateways env st h gateways = Some b \<Longrightarrow> \<exists>doc. ipfs st h = Some doc \<and> b = coerceRupees doc"
  by (induction gateways) (auto simp: fetchJson_def split: option.splits if_splits)

lemma getEdge_events: "asEvents rt st (snd (emailHandler rt env email st))"
proof (cases "email = [] \<or> inMemoryBalances st (toLowerCase rt email) \<noteq> None")
  case True
  then show ?thesis by (auto simp: emailHandler_def Let_def asEvents_refl)
next
  case False
  let ?k = "toLowerCase rt email"
  obtain h st1 where r: "resolveHash env ?k st = (h, st1)"
    by (cases "resolveHash env ?k st")
  have a: "asEvents rt st st1" using resolveHash_events [OF r] .
  let ?data = "if h \<noteq> [] then tryGateways env st1 h ipfsGateways else None"
  show ?thesis
  proof (cases ?data)
    case None
    then have "snd (emailHandler rt env email st) = st1"
      using False r by (simp add: emailHandler_def Let_def)
    then show ?thesis using a by simp
  next
    case (Some b)
    then have s: "snd (emailHandler rt env email st) = setMemory ?k b st1"
      using False r by (simp add: emailHandler_def Let_def setMemory_def)
    from Some obtain doc where "ipfs st1 h = Some doc" and "b = coerceRupees doc"
      using tryGateways_Some [of env st1 h ipfsGateways b] by (auto split: if_splits)
    then have "asEvents rt st1 (setMemory ?k b st1)"
      by (intro asEvents_list [of rt "[LoadCoerced h, Cache 0 ?k]"]) (simp add: ledgerEvents_def)
    then show ?thesis using s asEvents_trans [OF a] by simp
  qed
qed

lemma create_events: "asEvents rt st (snd (createListing rt e1 e2 req st))"
proof -
  obtain bal st1 where r: "getUserBalanceByEmailInternal rt e1 (c_sellerEmail req) st = (bal, st1)"
    by (cases "getUserBalanceByEmailInternal rt e1 (c_sellerEmail req) st")
  let ?s = "snd (createListing rt e1 e2 req st)"
  have "?s = st \<or> (inMemoryBalances ?s = inMemoryBalances st1 \<and> ipfs ?s = ipfs st1
      \<and> emailToIpfsMap ?s = emailToIpfsMap st1)"
    using r
    by (auto simp: createListing_def Let_def split: sum.splits dest!: saveListings_ledger)
  then show ?thesis
    using asEvents_trans [OF getInternal_events [OF r] asEvents_unrelated [of ?s st1 rt]]
    by (auto simp: asEvents_refl)
qed

lemma settle_events: "asEvents rt st (snd (settle rt E req ref L st))"
proof -
  let ?mb = "\<lparr>reason = ''market_buy'', m_listingId = Some (l_id L),
              counterpartyEmail = Some (sellerEmail L)\<rparr>"
  let ?ms = "\<lparr>reason = ''market_sell'', m_listingId = Some (l_id L),
              counterpartyEmail = Some (buyerEmail req)\<rparr>"
  obtain rb st1 where b: "updateUserBalanceByEmail rt (buyerReadEnv E) (buyerStoreEnv E)
      (buyerEmail req) (amountTokens L) (- priceRupees L) ?mb st = (rb, st1)"
    by (cases "updateUserBalanceByEmail rt (buyerReadEnv E) (buyerStoreEnv E) (buyerEmail req)
      (amountTokens L) (- priceRupees L) ?mb st")
  obtain rs st2 where s: "updateUserBalanceByEmail rt (sellerReadEnv E) (sellerStoreEnv E)
      (sellerEmail L) (- amountTokens L) (priceRupees L) ?ms st1 = (rs, st2)"
    by (cases "updateUserBalanceByEmail rt (sellerReadEnv E) (sellerStoreEnv E) (sellerEmail L)
      (- amountTokens L) (priceRupees L) ?ms st1")
  have a1: "asEvents rt st st1"
    using update_events [of rt st "buyerReadEnv E" "buyerStoreEnv E" "buyerEmail req"
        "amountTokens L" "- priceRupees L" ?mb] b by simp
  have a2: "asEvents rt st1 st2"
    using update_events [of rt st1 "sellerReadEnv E" "sellerStoreEnv E" "sellerEmail L"
        "- amountTokens L" "priceRupees L" ?ms] s by simp
  let ?s = "snd (settle rt E req ref L st)"
  have "?s = st1 \<or> (inMemoryBalances ?s = inMemoryBalances st2 \<and> ipfs ?s = ipfs st2
      \<and> emailToIpfsMap ?s = emailToIpfsMap st2)"
    using b s
    by (auto simp: settle_def Let_def split: sum.splits
        dest!: saveListings_ledger saveOrders_ledger)
  then show ?thesis
    using a1 asEvents_trans [OF asEvents_trans [OF a1 a2] asEvents_unrelated [of ?s st2 rt]]
    by auto
qed

lemma buy_events: "asEvents rt st (snd (buyListing rt E req st))"
proof (cases "buyChecks rt req (listings st)")
  case (Inl e)
  then show ?thesis by (simp add: buyListing_def asEvents_refl)
next
  case (Inr p)
  obtain ref L where p: "p = (ref, L)" by (cases p)
  obtain bal s0 where
    r: "getUserBalanceByEmailInternal rt (checkEnv E) (buyerEmail req) st = (bal, s0)"
    by (cases "getUserBalanceByEmailInternal rt (checkEnv E) (buyerEmail req) st")
  have a: "asEvents rt st s0" using getInternal_events [OF r] .
  show ?thesis
    using Inr p r a asEvents_trans [OF a settle_events [of rt s0 E req ref L]]
    by (simp add: buyListing_def)
qed

text \<open>So each call keeps the snapshots in memory and the pinned documents balanced.\<close>

lemma asEvents_balanced:
  assumes "\<forall>x. add rt 0 x = x" and "asEvents rt s s'" and "ledgerBalanced rt (s, [])"
  shows "ledgerBalanced rt (s', [])"
proof -
  from assms(2) obtain events loaded' where
    e: "ledgerEvents rt events (s, []) = (s', loaded')"
    unfolding asEvents_def by blast
  have "ledgerBalanced rt (s', loaded')"
    using events_balanced [OF assms(1,3), of events] e by simp
  then show ?thesis by (simp add: ledgerBalanced_def)
qed

lemma getInternal_events_snd:
  "asEvents rt st (snd (getUserBalanceByEmailInternal rt env email st))"
  by (cases "getUserBalanceByEmailInternal rt env email st") (simp add: getInternal_events)

lemma calls_balanced:
  assumes "\<forall>x. add rt 0 x = x" and "ledgerBalanced rt (st, [])"
  shows "ledgerBalanced rt (snd (storeUserBalance rt env sreq st), [])"
    and "ledgerBalanced rt (snd (storeUserBalanceInternal rt env args st), [])"
    and "ledgerBalanced rt (snd (updateUserBalanceByEmail rt e1 e2 email dt dr m st), [])"
    and "ledgerBalanced rt (snd (buyListing rt E breq st), [])"
    and "ledgerBalanced rt (snd (createListing rt e1 e2 creq st), [])"
    and "ledgerBalanced rt (snd (emailHandler rt env email st), [])"
    and "ledgerBalanced rt (snd (getUserBalanceByEmail rt env email st), [])"
    and "ledgerBalanced rt (snd (getUserBalanceByEmailInternal rt env email st), [])"
  using assms(2)
  by (rule asEvents_balanced [OF assms(1) store_events],
      rule asEvents_balanced [OF assms(1) storeInternal_events],
      rule asEvents_balanced [OF assms(1) update_events],
      rule asEvents_balanced [OF assms(1) buy_events],
      rule asEvents_balanced [OF assms(1) create_events],
      rule asEvents_balanced [OF assms(1) getEdge_events],
      rule asEvents_balanced [OF assms(1) getRoute_events],
      rule asEvents_balanced [OF assms(1) getInternal_events_snd])

end
